theory Spec2Isabelle
  imports Main "HOL-Library.Word"
begin

section \<open>JavaScript values and thrown errors\<close>

text \<open>
  The embedding follows \<^verbatim>\<open>src/dist/passwordlessclient.mjs\<close>. JavaScript strings are
  modelled as \<^typ>\<open>string\<close> (code units below 256: a code unit above that range is
  rejected by \<^verbatim>\<open>atob\<close> like any other character outside the alphabet, and
  \<^verbatim>\<open>btoa\<close> is only applied to strings built from bytes). Numbers are integers.
  A thrown value is the left summand of a sum type.
\<close>

type_synonym byte = "8 word"

datatype js_error =
    Error string
  | TypeError string
  | DOMException string string
  | URIError string
  | SyntaxError string

datatype jsval =
    JUndefined
  | JNull
  | JBool bool
  | JNum int
  | JStr string
  | JArray "jsval list"
  | JObject "(string \<times> jsval) list"
  | JUint8Array "byte list"
  | JArrayBuffer "byte list"
  | JFunction

text \<open>
  \<^verbatim>\<open>new Uint8Array(array)\<close> and \<^verbatim>\<open>Uint8Array.from(array)\<close> store \<open>ToUint8\<close> of each
  element: a number is reduced modulo 256. What \<open>ToNumber\<close> makes of an element that is
  not a number is left to the platform, as the parameter \<open>tonum\<close>.
\<close>

definition ToUint8 :: "(jsval \<Rightarrow> int) \<Rightarrow> jsval \<Rightarrow> byte" where
  "ToUint8 tonum v = (case v of JNum n \<Rightarrow> of_int n | _ \<Rightarrow> of_int (tonum v))"

section \<open>The platform's base64 functions\<close>

text \<open>
  \<^verbatim>\<open>window.btoa\<close> and \<^verbatim>\<open>window.atob\<close> are not part of the repository; they are modelled
  after the HTML standard: \<^verbatim>\<open>btoa\<close> is the base64 encoding of RFC 4648 with padding,
  \<^verbatim>\<open>atob\<close> is the "forgiving-base64 decode".
\<close>

definition base64_alphabet :: string where
  "base64_alphabet =
     ''ABCDEFGHIJKLMNOPQRSTUVWXYZabcdefghijklmnopqrstuvwxyz0123456789+/''"

definition sextet_char :: "nat \<Rightarrow> char" where
  "sextet_char n = base64_alphabet ! n"

fun index_of :: "'a list \<Rightarrow> 'a \<Rightarrow> nat option" where
  "index_of [] c = None"
| "index_of (x # xs) c = (if x = c then Some 0 else map_option Suc (index_of xs c))"

definition sextet_of_char :: "char \<Rightarrow> nat option" where
  "sextet_of_char c = index_of base64_alphabet c"

text \<open>Three bytes make four sextets; one or two remaining bytes make two or three.\<close>

fun sextets_of :: "nat list \<Rightarrow> nat list" where
  "sextets_of [] = []"
| "sextets_of [a] = [a div 4, (a mod 4) * 16]"
| "sextets_of [a, b] = [a div 4, (a mod 4) * 16 + b div 16, (b mod 16) * 4]"
| "sextets_of (a # b # c # bs) =
     [a div 4, (a mod 4) * 16 + b div 16, (b mod 16) * 4 + c div 64, c mod 64]
       @ sextets_of bs"

definition padding_of :: "nat \<Rightarrow> string" where
  "padding_of n = (if n mod 3 = 1 then ''=='' else if n mod 3 = 2 then ''='' else [])"

definition btoa :: "string \<Rightarrow> string" where
  "btoa str = map sextet_char (sextets_of (map of_char str)) @ padding_of (length str)"

text \<open>
  Decoding: four sextets make three bytes. A rest of two sextets (12 bits) gives one
  byte and a rest of three (18 bits) gives two, the last four or two bits being
  discarded. A rest of one sextet is excluded by the length check of \<open>atob\<close>.
\<close>

fun bytes_of :: "nat list \<Rightarrow> nat list" where
  "bytes_of [] = []"
| "bytes_of [s1] = []"
| "bytes_of [s1, s2] = [s1 * 4 + s2 div 16]"
| "bytes_of [s1, s2, s3] = [s1 * 4 + s2 div 16, (s2 mod 16) * 16 + s3 div 4]"
| "bytes_of (s1 # s2 # s3 # s4 # ss) =
     [s1 * 4 + s2 div 16, (s2 mod 16) * 16 + s3 div 4, (s3 mod 4) * 64 + s4]
       @ bytes_of ss"

definition ascii_whitespace :: "char \<Rightarrow> bool" where
  "ascii_whitespace c = (of_char c \<in> {9, 10, 12, 13, 32 :: nat})"

definition remove_padding :: "string \<Rightarrow> string" where
  "remove_padding d =
     (if length d mod 4 = 0 \<and> d \<noteq> [] \<and> last d = CHR ''=''
      then (if butlast d \<noteq> [] \<and> last (butlast d) = CHR ''=''
            then butlast (butlast d) else butlast d)
      else d)"

fun sextets_of_string :: "string \<Rightarrow> nat list option" where
  "sextets_of_string [] = Some []"
| "sextets_of_string (c # cs) =
     (case sextet_of_char c of
        None \<Rightarrow> None
      | Some v \<Rightarrow> map_option ((#) v) (sextets_of_string cs))"

definition atob :: "string \<Rightarrow> js_error + string" where
  "atob data =
     (let d = remove_padding (filter (\<lambda>c. \<not> ascii_whitespace c) data)
      in if length d mod 4 = 1
         then Inl (DOMException ''InvalidCharacterError'' ''atob'')
         else (case sextets_of_string d of
                 None \<Rightarrow> Inl (DOMException ''InvalidCharacterError'' ''atob'')
               | Some ss \<Rightarrow> Inr (map char_of (bytes_of ss))))"

section \<open>Codec: coerceToArrayBuffer and coerceToBase64Url\<close>

text \<open>\<^verbatim>\<open>s.replace(/a/g, "b")\<close> for a single character \<open>a\<close>.\<close>

definition replace_all :: "char \<Rightarrow> char \<Rightarrow> string \<Rightarrow> string" where
  "replace_all a b s = map (\<lambda>c. if c = a then b else c) s"

text \<open>\<^verbatim>\<open>s.replace(/=*$/g, "")\<close>: the run of \<open>=\<close> at the end of the string is removed.\<close>

definition strip_trailing_eq :: "string \<Rightarrow> string" where
  "strip_trailing_eq s = rev (dropWhile (\<lambda>c. c = CHR ''='') (rev s))"

text \<open>
  A \<open>Uint8Array\<close> is modelled by its bytes and spans its whole buffer, so that
  \<^verbatim>\<open>thing.buffer\<close> holds the same bytes.
\<close>

definition coerceToArrayBuffer :: "(jsval \<Rightarrow> int) \<Rightarrow> jsval \<Rightarrow> js_error + jsval" where
  "coerceToArrayBuffer tonum thing =
     (case (case thing of
              JStr s \<Rightarrow>
                (case atob (replace_all CHR ''_'' CHR ''/'' (replace_all CHR ''-'' CHR ''+'' s)) of
                   Inl e \<Rightarrow> Inl e
                 | Inr str \<Rightarrow> Inr (JUint8Array (map (\<lambda>c. of_nat (of_char c)) str)))
            | _ \<Rightarrow> Inr thing) of
        Inl e \<Rightarrow> Inl e
      | Inr thing1 \<Rightarrow>
          (let thing2 = (case thing1 of
                           JArray xs \<Rightarrow> JUint8Array (map (ToUint8 tonum) xs)
                         | _ \<Rightarrow> thing1);
               thing3 = (case thing2 of JUint8Array bs \<Rightarrow> JArrayBuffer bs | _ \<Rightarrow> thing2)
           in (case thing3 of
                 JArrayBuffer bs \<Rightarrow> Inr thing3
               | _ \<Rightarrow> Inl (TypeError ''could not coerce to ArrayBuffer''))))"

definition coerceToBase64Url :: "(jsval \<Rightarrow> int) \<Rightarrow> jsval \<Rightarrow> js_error + string" where
  "coerceToBase64Url tonum thing =
     (let thing1 = (case thing of
                      JArray xs \<Rightarrow> JUint8Array (map (ToUint8 tonum) xs)
                    | _ \<Rightarrow> thing);
          thing2 = (case thing1 of JArrayBuffer bs \<Rightarrow> JUint8Array bs | _ \<Rightarrow> thing1);
          thing3 = (case thing2 of
                      JUint8Array bs \<Rightarrow> JStr (btoa (map (\<lambda>w. char_of (unat w)) bs))
                    | _ \<Rightarrow> thing2)
      in (case thing3 of
            JStr s \<Rightarrow>
              Inr (strip_trailing_eq
                     (replace_all CHR ''/'' CHR ''_'' (replace_all CHR ''+'' CHR ''-'' s)))
          | _ \<Rightarrow> Inl (Error ''could not coerce to string'')))"

text \<open>
  The padding-stripped URL-safe texts that the round-trip law speaks of: every
  character is a letter, a digit, \<open>-\<close> or \<open>_\<close>, the length is not 1 modulo 4, and
  the bits of the last character that do not belong to a byte are zero.
\<close>

definition url_sextet_of_char :: "char \<Rightarrow> nat option" where
  "url_sextet_of_char c =
     (if c = CHR ''+'' \<or> c = CHR ''/'' then None
      else sextet_of_char (if c = CHR ''-'' then CHR ''+'' else if c = CHR ''_'' then CHR ''/'' else c))"

fun url_sextets_of_string :: "string \<Rightarrow> nat list option" where
  "url_sextets_of_string [] = Some []"
| "url_sextets_of_string (c # cs) =
     (case url_sextet_of_char c of
        None \<Rightarrow> None
      | Some v \<Rightarrow> map_option ((#) v) (url_sextets_of_string cs))"

fun zero_tail :: "nat list \<Rightarrow> bool" where
  "zero_tail [] = True"
| "zero_tail [s1] = False"
| "zero_tail [s1, s2] = (s2 mod 16 = 0)"
| "zero_tail [s1, s2, s3] = (s3 mod 4 = 0)"
| "zero_tail (s1 # s2 # s3 # s4 # ss) = zero_tail ss"

definition valid_base64url :: "string \<Rightarrow> bool" where
  "valid_base64url t =
     (case url_sextets_of_string t of None \<Rightarrow> False | Some ss \<Rightarrow> zero_tail ss)"

section \<open>Objects and property access\<close>

text \<open>
  An object is the list of its own properties in insertion order. Reading a property
  of \<open>undefined\<close> or \<open>null\<close> throws a \<open>TypeError\<close>; reading a missing property gives
  \<open>undefined\<close>. The property names used by the client (\<open>data\<close>, \<open>challenge\<close>, \<open>id\<close>,
  ...) are not built-in properties of strings, arrays or functions, so a read on such
  a value gives \<open>undefined\<close> as well.
\<close>

fun get_prop :: "jsval \<Rightarrow> string \<Rightarrow> js_error + jsval" where
  "get_prop JUndefined k = Inl (TypeError ''Cannot read properties of undefined'')"
| "get_prop JNull k = Inl (TypeError ''Cannot read properties of null'')"
| "get_prop (JObject kvs) k = Inr (case map_of kvs k of None \<Rightarrow> JUndefined | Some v \<Rightarrow> v)"
| "get_prop v k = Inr JUndefined"

fun put_prop :: "string \<Rightarrow> jsval \<Rightarrow> (string \<times> jsval) list \<Rightarrow> (string \<times> jsval) list" where
  "put_prop k v [] = [(k, v)]"
| "put_prop k v ((k', v') # kvs) =
     (if k = k' then (k, v) # kvs else (k', v') # put_prop k v kvs)"

text \<open>
  An assignment \<^verbatim>\<open>o.k = v\<close>. The module is strict code, so the assignment throws on a
  primitive value. The client assigns only to values on which a read of the same
  property has just given a value other than \<open>undefined\<close>, that is, to objects.
\<close>

fun set_prop :: "jsval \<Rightarrow> string \<Rightarrow> jsval \<Rightarrow> js_error + jsval" where
  "set_prop (JObject kvs) k v = Inr (JObject (put_prop k v kvs))"
| "set_prop JUndefined k v = Inl (TypeError ''Cannot set properties of undefined'')"
| "set_prop JNull k v = Inl (TypeError ''Cannot set properties of null'')"
| "set_prop x k v = Inl (TypeError ''Cannot create property'')"

text \<open>
  How the platform reads a member of a dictionary argument (Web IDL): the member is
  read with a property get, and it is present iff the value read is not \<open>undefined\<close>.
\<close>

definition dictionary_member :: "jsval \<Rightarrow> string \<Rightarrow> js_error + jsval option" where
  "dictionary_member dict k =
     (case get_prop dict k of
        Inl e \<Rightarrow> Inl e
      | Inr v \<Rightarrow> Inr (if v = JUndefined then None else Some v))"

text \<open>
  \<^verbatim>\<open>Object.hasOwn(o, k)\<close>: whether the object holds the property name, whatever the
  value. An assignment of \<open>undefined\<close> keeps the name; only \<^verbatim>\<open>delete\<close> removes it.
\<close>

fun has_own_property :: "jsval \<Rightarrow> string \<Rightarrow> bool" where
  "has_own_property (JObject kvs) k = (k \<in> set (map fst kvs))"
| "has_own_property v k = False"

fun typeof :: "jsval \<Rightarrow> string" where
  "typeof JUndefined = ''undefined''"
| "typeof (JBool b) = ''boolean''"
| "typeof (JNum n) = ''number''"
| "typeof (JStr s) = ''string''"
| "typeof JFunction = ''function''"
| "typeof v = ''object''"

definition bindE :: "'e + 'a \<Rightarrow> ('a \<Rightarrow> 'e + 'b) \<Rightarrow> 'e + 'b" where
  "bindE m f = (case m of Inl e \<Rightarrow> Inl e | Inr x \<Rightarrow> f x)"

fun mapE :: "('a \<Rightarrow> 'e + 'b) \<Rightarrow> 'a list \<Rightarrow> 'e + 'b list" where
  "mapE f [] = Inr []"
| "mapE f (x # xs) = bindE (f x) (\<lambda>y. bindE (mapE f xs) (\<lambda>ys. Inr (y # ys)))"

text \<open>
  \<^verbatim>\<open>a.map(f)\<close> and \<^verbatim>\<open>a.forEach(f)\<close> where \<open>f\<close> updates and returns its argument: on
  a value that is not an array the method is missing (responses are JSON and hold no
  typed arrays).
\<close>

definition array_map :: "(jsval \<Rightarrow> js_error + jsval) \<Rightarrow> jsval \<Rightarrow> js_error + jsval" where
  "array_map f a =
     (case a of
        JArray xs \<Rightarrow> bindE (mapE f xs) (\<lambda>ys. Inr (JArray ys))
      | JUndefined \<Rightarrow> Inl (TypeError ''Cannot read properties of undefined'')
      | JNull \<Rightarrow> Inl (TypeError ''Cannot read properties of null'')
      | _ \<Rightarrow> Inl (TypeError ''is not a function''))"

section \<open>The environment of the client\<close>

record request =
  req_url :: string
  req_method :: string
  req_body :: jsval
  req_headers :: "(string \<times> string) list"

text \<open>
  \<open>req_body\<close> is the value handed to \<^verbatim>\<open>JSON.stringify\<close>. \<open>resp_json\<close> is the outcome of
  \<^verbatim>\<open>response.json()\<close>.
\<close>

record response =
  resp_status :: int
  resp_json :: "js_error + jsval"

text \<open>
  A binary field of a platform credential: an \<open>ArrayBuffer\<close> (what the platform
  returns), a \<open>Uint8Array\<close>, or an array of integers (what a stub returns).
\<close>

datatype buffer_source =
    ArrayBuffer "byte list"
  | Uint8Array "byte list"
  | NumberArray "int list"

fun new_Uint8Array :: "buffer_source \<Rightarrow> byte list" where
  "new_Uint8Array (ArrayBuffer bs) = bs"
| "new_Uint8Array (Uint8Array bs) = bs"
| "new_Uint8Array (NumberArray ns) = map of_int ns"

record attestation_response =
  att_attestationObject :: buffer_source
  att_clientDataJSON :: buffer_source

record assertion_response =
  asr_authenticatorData :: buffer_source
  asr_clientDataJSON :: buffer_source
  asr_signature :: buffer_source

text \<open>\<open>cred_extensions\<close> is what \<^verbatim>\<open>getClientExtensionResults()\<close> returns.\<close>

record 'r credential =
  cred_id :: jsval
  cred_rawId :: buffer_source
  cred_type :: jsval
  cred_extensions :: jsval
  cred_response :: 'r

text \<open>
  What the client finds around it: the global \<^verbatim>\<open>window.PublicKeyCredential\<close>
  (\<open>undefined\<close> when absent), \<^verbatim>\<open>fetch\<close>, \<^verbatim>\<open>navigator.credentials\<close> (\<open>None\<close> is a
  resolution with \<open>null\<close>), the text of the date \<open>days\<close> ahead, and the parts of
  \<open>ToNumber\<close>, \<^verbatim>\<open>encodeURIComponent\<close> and \<^verbatim>\<open>decodeURIComponent\<close> that are not modelled.
\<close>

record env =
  PublicKeyCredential :: jsval
  ToNumber :: "jsval \<Rightarrow> int"
  fetch :: "request \<Rightarrow> js_error + response"
  credentials_create :: "jsval \<Rightarrow> js_error + attestation_response credential option"
  credentials_get :: "jsval \<Rightarrow> js_error + assertion_response credential option"
  expires_text :: "int \<Rightarrow> string"
  percent_encode :: "string \<Rightarrow> string"
  percent_decode :: "string \<Rightarrow> js_error + string"

record config =
  apiUrl :: string
  apiKey :: string
  Origin :: string
  RPID :: string
  useHints :: jsval

datatype event =
    Fetch request
  | CredentialsCreate jsval
  | CredentialsGet jsval
  | ConsoleError string
  | ConsoleWarn string "js_error option"

text \<open>
  The state that the client changes: the cookies of the document, and the trace of the
  calls it has made.
\<close>

record world =
  cookies :: "(string \<times> string) list"
  trace :: "event list"

type_synonym 'a io = "world \<Rightarrow> (js_error + 'a) \<times> world"

definition io_return :: "'a \<Rightarrow> 'a io" where
  "io_return x = (\<lambda>w. (Inr x, w))"

definition io_throw :: "js_error \<Rightarrow> 'a io" where
  "io_throw e = (\<lambda>w. (Inl e, w))"

definition io_lift :: "js_error + 'a \<Rightarrow> 'a io" where
  "io_lift r = (\<lambda>w. (r, w))"

definition io_bind :: "'a io \<Rightarrow> ('a \<Rightarrow> 'b io) \<Rightarrow> 'b io" where
  "io_bind m f = (\<lambda>w. case m w of (Inl e, w') \<Rightarrow> (Inl e, w') | (Inr x, w') \<Rightarrow> f x w')"

definition io_catch :: "'a io \<Rightarrow> (js_error \<Rightarrow> 'a io) \<Rightarrow> 'a io" where
  "io_catch m h = (\<lambda>w. case m w of (Inl e, w') \<Rightarrow> h e w' | (Inr x, w') \<Rightarrow> (Inr x, w'))"

definition emit :: "event \<Rightarrow> unit io" where
  "emit ev = (\<lambda>w. (Inr (), w\<lparr>trace := trace w @ [ev]\<rparr>))"

definition http_fetch :: "env \<Rightarrow> request \<Rightarrow> response io" where
  "http_fetch env req = io_bind (emit (Fetch req)) (\<lambda>_. io_lift (fetch env req))"

text \<open>The events of a run from \<open>w\<close> to \<open>w'\<close>, and the addresses requested in a trace.\<close>

definition events_since :: "world \<Rightarrow> world \<Rightarrow> event list" where
  "events_since w w' = drop (length (trace w)) (trace w')"

fun requests_of :: "event list \<Rightarrow> request list" where
  "requests_of [] = []"
| "requests_of (Fetch r # evs) = r # requests_of evs"
| "requests_of (ev # evs) = requests_of evs"

section \<open>Hint store: setCookie, getCookie, setHint, hasPasswordlessHint\<close>

text \<open>
  \<^verbatim>\<open>s.split(sep)\<close> for a separator that is not empty.
\<close>

fun split_acc :: "string \<Rightarrow> string \<Rightarrow> string \<Rightarrow> string list" where
  "split_acc sep acc [] = [acc]"
| "split_acc sep acc (c # cs) =
     (if sep \<noteq> [] \<and> take (length sep) (c # cs) = sep
      then acc # split_acc sep [] (drop (length sep) (c # cs))
      else split_acc sep (acc @ [c]) cs)"

definition js_split :: "string \<Rightarrow> string \<Rightarrow> string list" where
  "js_split sep s = split_acc sep [] s"

fun join_with :: "string \<Rightarrow> string list \<Rightarrow> string" where
  "join_with sep [] = []"
| "join_with sep [x] = x"
| "join_with sep (x # y # ys) = x @ sep @ join_with sep (y # ys)"

text \<open>
  \<^verbatim>\<open>document.cookie\<close> is not part of the repository. The cookies that the document
  sees are modelled as a list of names and values. Reading gives \<open>name=value\<close> pairs
  joined by \<open>; \<close> (a cookie without a name gives its value alone). Writing takes the
  text up to the first \<open>;\<close>, splits it at the first \<open>=\<close>, trims spaces and tabs, and
  stores the cookie under its name; the attributes are not modelled (the client sets
  an expiry 365 days ahead and the path \<open>/\<close>, so the cookie is kept and visible).
\<close>

definition cookie_string :: "string \<times> string \<Rightarrow> string" where
  "cookie_string c = (if fst c = [] then snd c else fst c @ ''='' @ snd c)"

definition document_cookie_get :: "(string \<times> string) list \<Rightarrow> string" where
  "document_cookie_get jar = join_with ''; '' (map cookie_string jar)"

definition wsp :: "char \<Rightarrow> bool" where
  "wsp c = (c = CHR '' '' \<or> c = CHR 0x09)"

definition trim_wsp :: "string \<Rightarrow> string" where
  "trim_wsp s = rev (dropWhile wsp (rev (dropWhile wsp s)))"

fun put_cookie :: "string \<Rightarrow> string \<Rightarrow> (string \<times> string) list \<Rightarrow> (string \<times> string) list" where
  "put_cookie n v [] = [(n, v)]"
| "put_cookie n v ((n', v') # jar) =
     (if n = n' then (n, v) # jar else (n', v') # put_cookie n v jar)"

definition document_cookie_set :: "string \<Rightarrow> (string \<times> string) list \<Rightarrow> (string \<times> string) list" where
  "document_cookie_set str jar =
     (let pair = takeWhile (\<lambda>c. c \<noteq> CHR '';'') str;
          name = (if CHR ''='' \<in> set pair
                  then trim_wsp (takeWhile (\<lambda>c. c \<noteq> CHR ''='') pair) else []);
          val = (if CHR ''='' \<in> set pair
                 then trim_wsp (tl (dropWhile (\<lambda>c. c \<noteq> CHR ''='') pair)) else trim_wsp pair)
      in if name = [] \<and> val = [] then jar else put_cookie name val jar)"

definition uri_unreserved :: "char \<Rightarrow> bool" where
  "uri_unreserved c =
     (c \<in> set ''ABCDEFGHIJKLMNOPQRSTUVWXYZabcdefghijklmnopqrstuvwxyz0123456789-_.!~*()''
      \<or> c = CHR 0x27)"

definition encodeURIComponent :: "env \<Rightarrow> string \<Rightarrow> string" where
  "encodeURIComponent env s = (if list_all uri_unreserved s then s else percent_encode env s)"

definition decodeURIComponent :: "env \<Rightarrow> string \<Rightarrow> js_error + string" where
  "decodeURIComponent env s = (if CHR ''%'' \<in> set s then percent_decode env s else Inr s)"

definition setCookie :: "env \<Rightarrow> string \<Rightarrow> string \<Rightarrow> int \<Rightarrow> string \<Rightarrow> unit io" where
  "setCookie env name val days path =
     (\<lambda>w. (Inr (),
        w\<lparr>cookies :=
            document_cookie_set
              (name @ ''='' @ encodeURIComponent env val @ ''; expires='' @ expires_text env days
                 @ ''; path='' @ path)
              (cookies w)\<rparr>))"

fun reduceE :: "('r \<Rightarrow> 'a \<Rightarrow> 'e + 'r) \<Rightarrow> 'r \<Rightarrow> 'a list \<Rightarrow> 'e + 'r" where
  "reduceE f r [] = Inr r"
| "reduceE f r (x # xs) = bindE (f r x) (\<lambda>r'. reduceE f r' xs)"

text \<open>
  The callback of the \<^verbatim>\<open>reduce\<close> in \<open>getCookie\<close>: \<^verbatim>\<open>parts[1]\<close> is \<open>undefined\<close> when
  the entry has no \<open>=\<close>, and \<^verbatim>\<open>decodeURIComponent(undefined)\<close> is the text \<open>undefined\<close>.
\<close>

definition getCookie_step :: "env \<Rightarrow> string \<Rightarrow> string \<Rightarrow> string \<Rightarrow> js_error + string" where
  "getCookie_step env name r v =
     (case js_split ''='' v of
        [] \<Rightarrow> Inr r
      | p0 # ps \<Rightarrow>
          (if p0 = name
           then decodeURIComponent env (case ps of [] \<Rightarrow> ''undefined'' | p1 # _ \<Rightarrow> p1)
           else Inr r))"

definition getCookie :: "env \<Rightarrow> string \<Rightarrow> world \<Rightarrow> js_error + string" where
  "getCookie env name w =
     reduceE (getCookie_step env name) []
       (js_split ''; '' (document_cookie_get (cookies w)))"

definition setHint :: "env \<Rightarrow> config \<Rightarrow> string \<Rightarrow> unit io" where
  "setHint env cfg hint =
     (if useHints cfg = JStr ''cookie'' then setCookie env hint ''1'' 365 ''/''
      else io_return ())"

text \<open>The result is \<open>undefined\<close> when the function falls through its \<^verbatim>\<open>if\<close>.\<close>

definition hasPasswordlessHint :: "env \<Rightarrow> config \<Rightarrow> world \<Rightarrow> js_error + jsval" where
  "hasPasswordlessHint env cfg w =
     (if useHints cfg = JStr ''cookie''
      then bindE (getCookie env ''hint-passwordless'' w) (\<lambda>s. Inr (JBool (s = ''1'')))
      else Inr JUndefined)"

text \<open>
  The cookie stores considered for the hint query: every cookie has a name, names hold
  neither \<open>=\<close> nor \<open>;\<close>, values hold no \<open>;\<close>, and there is one cookie per name.
\<close>

definition wf_cookie :: "string \<times> string \<Rightarrow> bool" where
  "wf_cookie c =
     (fst c \<noteq> [] \<and> CHR ''='' \<notin> set (fst c) \<and> CHR '';'' \<notin> set (fst c)
      \<and> CHR '';'' \<notin> set (snd c))"

definition wf_jar :: "(string \<times> string) list \<Rightarrow> bool" where
  "wf_jar jar = (list_all wf_cookie jar \<and> distinct (map fst jar))"

section \<open>Capability gate: isBrowserSupported, checkSupport\<close>

definition isBrowserSupported :: "env \<Rightarrow> bool" where
  "isBrowserSupported env =
     (if PublicKeyCredential env = JUndefined \<or> typeof (PublicKeyCredential env) \<noteq> ''function''
      then False else True)"

definition checkSupport :: "env \<Rightarrow> js_error + unit" where
  "checkSupport env =
     (if \<not> isBrowserSupported env
      then Inl (Error
        ''WebAuthn and PublicKeyCredentials are not supported on this browser/device'')
      else Inr ())"

section \<open>Ceremony protocol: registration\<close>

definition params :: "config \<Rightarrow> (string \<times> jsval) list" where
  "params cfg = [(''RPID'', JStr (RPID cfg)), (''Origin'', JStr (Origin cfg))]"

definition register_begin_request :: "config \<Rightarrow> jsval \<Rightarrow> request" where
  "register_begin_request cfg token =
     \<lparr>req_url = apiUrl cfg @ ''register/begin'',
      req_method = ''POST'',
      req_body = JObject ((''token'', token) # params cfg),
      req_headers =
        [(''Accept'', ''application/json''),
         (''Content-Type'', ''application/json''),
         (''ApiKey'', apiKey cfg)]\<rparr>"

definition registerBegin :: "env \<Rightarrow> config \<Rightarrow> jsval \<Rightarrow> jsval io" where
  "registerBegin env cfg token =
     io_bind (http_fetch env (register_begin_request cfg token))
       (\<lambda>response. io_lift (resp_json response))"

text \<open>The destructuring \<^verbatim>\<open>{ data, sessionId } = ...\<close> of a begin response.\<close>

definition destructure_begin :: "jsval \<Rightarrow> js_error + jsval \<times> jsval" where
  "destructure_begin r =
     bindE (get_prop r ''data'') (\<lambda>data.
     bindE (get_prop r ''sessionId'') (\<lambda>sessionId. Inr (data, sessionId)))"

text \<open>\<^verbatim>\<open>c.id = coerceToArrayBuffer(c.id); return c\<close>\<close>

definition coerce_id :: "(jsval \<Rightarrow> int) \<Rightarrow> jsval \<Rightarrow> js_error + jsval" where
  "coerce_id tonum c =
     bindE (get_prop c ''id'') (\<lambda>i.
     bindE (coerceToArrayBuffer tonum i) (\<lambda>buf. set_prop c ''id'' buf))"

text \<open>
  Lines 40 to 50 of \<open>register\<close>. The response is a tree, so an assignment into a nested
  object is written back into its parent.
\<close>

definition adapt_register_options :: "(jsval \<Rightarrow> int) \<Rightarrow> jsval \<Rightarrow> js_error + jsval" where
  "adapt_register_options tonum options =
     bindE (get_prop options ''challenge'') (\<lambda>challenge.
     bindE (coerceToArrayBuffer tonum challenge) (\<lambda>buf.
     bindE (set_prop options ''challenge'' buf) (\<lambda>options1.
     bindE (get_prop options1 ''user'') (\<lambda>user.
     bindE (coerce_id tonum user) (\<lambda>user'.
     bindE (set_prop options1 ''user'' user') (\<lambda>options2.
     bindE (get_prop options2 ''excludeCredentials'') (\<lambda>excl.
     bindE (array_map (coerce_id tonum) excl) (\<lambda>excl'.
     bindE (set_prop options2 ''excludeCredentials'' excl') (\<lambda>options3.
     bindE (get_prop options3 ''authenticatorSelection'') (\<lambda>sel.
     bindE (get_prop sel ''authenticatorAttachment'') (\<lambda>attachment.
       if attachment = JNull
       then bindE (set_prop sel ''authenticatorAttachment'' JUndefined) (\<lambda>sel'.
              set_prop options3 ''authenticatorSelection'' sel')
       else Inr options3)))))))))))"

definition register_failed_create :: string where
  "register_failed_create =
     ''Failed during credentials.create in browser. One reason could be because the username is already registered with your authenticator. Please change username or authenticator.''"

definition register_complete_request :: "config \<Rightarrow> jsval \<Rightarrow> jsval \<Rightarrow> request" where
  "register_complete_request cfg data sessionId =
     \<lparr>req_url = apiUrl cfg @ ''register/complete'',
      req_method = ''POST'',
      req_body = JObject ((''response'', data) # (''sessionId'', sessionId) # params cfg),
      req_headers =
        [(''Accept'', ''application/json''),
         (''Content-Type'', ''application/json''),
         (''ApiKey'', apiKey cfg)]\<rparr>"

definition register_complete_data ::
  "(jsval \<Rightarrow> int) \<Rightarrow> attestation_response credential \<Rightarrow> js_error + jsval" where
  "register_complete_data tonum newCredential =
     (let attestationObject =
            new_Uint8Array (att_attestationObject (cred_response newCredential));
          clientDataJSON = new_Uint8Array (att_clientDataJSON (cred_response newCredential));
          rawId = new_Uint8Array (cred_rawId newCredential)
      in bindE (coerceToBase64Url tonum (JUint8Array rawId)) (\<lambda>rawId64.
         bindE (coerceToBase64Url tonum (JUint8Array attestationObject)) (\<lambda>attestation64.
         bindE (coerceToBase64Url tonum (JUint8Array clientDataJSON)) (\<lambda>clientData64.
           Inr (JObject
             [(''id'', cred_id newCredential),
              (''rawId'', JStr rawId64),
              (''type'', cred_type newCredential),
              (''extensions'', cred_extensions newCredential),
              (''response'', JObject
                 [(''AttestationObject'', JStr attestation64),
                  (''clientDataJson'', JStr clientData64)])])))))"

definition registerComplete ::
  "env \<Rightarrow> config \<Rightarrow> attestation_response credential option \<Rightarrow> jsval \<Rightarrow> jsval io" where
  "registerComplete env cfg newCredential sessionId =
     (case newCredential of
        None \<Rightarrow> io_throw (TypeError ''Cannot read properties of null'')
      | Some c \<Rightarrow>
          io_bind (io_lift (register_complete_data (ToNumber env) c)) (\<lambda>data.
          io_bind (http_fetch env (register_complete_request cfg data sessionId)) (\<lambda>response.
          io_bind (if resp_status response = 200 then setHint env cfg ''hint-passwordless''
                   else io_return ()) (\<lambda>_.
          io_lift (resp_json response)))))"

text \<open>
  \<open>register\<close> up to the platform invocation (lines 27 to 50): the begin call inside its
  \<^verbatim>\<open>try\<close>, then the adaptation of the options.
\<close>

definition register_options :: "env \<Rightarrow> config \<Rightarrow> jsval \<Rightarrow> (jsval \<times> jsval) io" where
  "register_options env cfg token =
     io_bind
       (io_catch
          (io_bind (registerBegin env cfg token) (\<lambda>r. io_lift (destructure_begin r)))
          (\<lambda>e. io_bind (emit (ConsoleError ''Failed during register/begin'')) (\<lambda>_.
                io_throw e)))
       (\<lambda>(data, session).
          io_bind (io_lift (adapt_register_options (ToNumber env) data)) (\<lambda>options.
          io_return (options, session)))"

definition register :: "env \<Rightarrow> config \<Rightarrow> jsval \<Rightarrow> unit io" where
  "register env cfg token =
     io_bind (io_lift (checkSupport env)) (\<lambda>_.
     io_bind (register_options env cfg token) (\<lambda>(options, session).
     io_bind
       (io_catch
          (io_bind (emit (CredentialsCreate (JObject [(''publicKey'', options)]))) (\<lambda>_.
           io_lift (credentials_create env (JObject [(''publicKey'', options)]))))
          (\<lambda>e. io_bind (emit (ConsoleWarn register_failed_create (Some e))) (\<lambda>_.
                io_throw e)))
       (\<lambda>newCredential.
          io_catch
            (io_bind (registerComplete env cfg newCredential session) (\<lambda>_.
             setHint env cfg ''hint-passwordless''))
            (\<lambda>e. emit (ConsoleWarn ''Failed during register/complete'' (Some e))))))"

section \<open>Ceremony protocol: sign-in\<close>

definition signin_begin_request :: "config \<Rightarrow> jsval \<Rightarrow> request" where
  "signin_begin_request cfg username =
     \<lparr>req_url = apiUrl cfg @ ''signin/begin'',
      req_method = ''POST'',
      req_body = JObject ((''username'', username) # params cfg),
      req_headers = [(''Accept'', ''application/json''), (''ApiKey'', apiKey cfg)]\<rparr>"

definition signinBegin :: "env \<Rightarrow> config \<Rightarrow> jsval \<Rightarrow> jsval io" where
  "signinBegin env cfg username =
     io_bind (http_fetch env (signin_begin_request cfg username))
       (\<lambda>res. io_lift (resp_json res))"

text \<open>Lines 156 to 160 of \<open>signin\<close>.\<close>

definition adapt_signin_options :: "(jsval \<Rightarrow> int) \<Rightarrow> jsval \<Rightarrow> js_error + jsval" where
  "adapt_signin_options tonum options =
     bindE (get_prop options ''challenge'') (\<lambda>challenge.
     bindE (coerceToArrayBuffer tonum challenge) (\<lambda>buf.
     bindE (set_prop options ''challenge'' buf) (\<lambda>options1.
     bindE (get_prop options1 ''allowCredentials'') (\<lambda>allow.
     bindE (array_map (coerce_id tonum) allow) (\<lambda>allow'.
       set_prop options1 ''allowCredentials'' allow')))))"

definition signin_complete_request :: "config \<Rightarrow> jsval \<Rightarrow> jsval \<Rightarrow> request" where
  "signin_complete_request cfg data sessionId =
     \<lparr>req_url = apiUrl cfg @ ''signin/complete'',
      req_method = ''POST'',
      req_body = JObject ((''response'', data) # (''sessionId'', sessionId) # params cfg),
      req_headers = [(''Accept'', ''application/json''), (''ApiKey'', apiKey cfg)]\<rparr>"

definition signin_complete_data ::
  "(jsval \<Rightarrow> int) \<Rightarrow> assertion_response credential \<Rightarrow> js_error + jsval" where
  "signin_complete_data tonum credential =
     (let authData = new_Uint8Array (asr_authenticatorData (cred_response credential));
          clientDataJSON = new_Uint8Array (asr_clientDataJSON (cred_response credential));
          rawId = new_Uint8Array (cred_rawId credential);
          sig = new_Uint8Array (asr_signature (cred_response credential))
      in bindE (coerceToBase64Url tonum (JUint8Array rawId)) (\<lambda>rawId64.
         bindE (coerceToBase64Url tonum (JUint8Array authData)) (\<lambda>authData64.
         bindE (coerceToBase64Url tonum (JUint8Array clientDataJSON)) (\<lambda>clientData64.
         bindE (coerceToBase64Url tonum (JUint8Array sig)) (\<lambda>sig64.
           Inr (JObject
             [(''id'', cred_id credential),
              (''rawId'', JStr rawId64),
              (''type'', cred_type credential),
              (''extensions'', cred_extensions credential),
              (''response'', JObject
                 [(''authenticatorData'', JStr authData64),
                  (''clientDataJson'', JStr clientData64),
                  (''signature'', JStr sig64)])]))))))"

definition signinComplete ::
  "env \<Rightarrow> config \<Rightarrow> assertion_response credential option \<Rightarrow> jsval \<Rightarrow> jsval io" where
  "signinComplete env cfg credential sessionId =
     (case credential of
        None \<Rightarrow> io_throw (TypeError ''Cannot read properties of null'')
      | Some c \<Rightarrow>
          io_bind (io_lift (signin_complete_data (ToNumber env) c)) (\<lambda>data.
          io_bind (http_fetch env (signin_complete_request cfg data sessionId)) (\<lambda>response.
          io_bind (if resp_status response = 200 then setHint env cfg ''hint-passwordless''
                   else io_return ()) (\<lambda>_.
          io_lift (resp_json response)))))"

text \<open>
  \<open>signin\<close> up to and including the platform invocation (lines 148 to 168).
\<close>

definition signin_assertion ::
  "env \<Rightarrow> config \<Rightarrow> jsval \<Rightarrow> (assertion_response credential option \<times> jsval) io" where
  "signin_assertion env cfg username =
     io_bind
       (io_catch
          (io_bind (signinBegin env cfg username) (\<lambda>r. io_lift (destructure_begin r)))
          (\<lambda>e. io_bind (emit (ConsoleWarn ''Failed during signin/begin'' (Some e))) (\<lambda>_.
                io_throw e)))
       (\<lambda>(data, sessionId).
          io_bind (io_lift (adapt_signin_options (ToNumber env) data)) (\<lambda>options.
          io_bind
            (io_catch
               (io_bind (emit (CredentialsGet (JObject [(''publicKey'', options)]))) (\<lambda>_.
                io_lift (credentials_get env (JObject [(''publicKey'', options)]))))
               (\<lambda>e. io_bind
                      (emit (ConsoleWarn ''Failed during credentials.get in browser.'' (Some e)))
                      (\<lambda>_. io_throw e)))
            (\<lambda>credential. io_return (credential, sessionId))))"

definition signin :: "env \<Rightarrow> config \<Rightarrow> jsval \<Rightarrow> jsval io" where
  "signin env cfg username =
     io_bind (io_lift (checkSupport env)) (\<lambda>_.
     io_bind (signin_assertion env cfg username) (\<lambda>(credential, sessionId).
       io_catch
         (io_bind (signinComplete env cfg credential sessionId) (\<lambda>response.
          io_lift (get_prop response ''data'')))
         (\<lambda>e. io_bind (emit (ConsoleWarn ''Failed during signin/complete'' (Some e))) (\<lambda>_.
               io_throw e))))"

section \<open>Example environments\<close>

text \<open>
  The configuration that the class starts from, for a page at the given origin and
  host name.
\<close>

definition default_config :: "string \<Rightarrow> string \<Rightarrow> config" where
  "default_config origin hostname =
     \<lparr>apiUrl = ''https://api.passwordless.dev/'',
      apiKey = [],
      Origin = origin,
      RPID = hostname,
      useHints = JStr ''cookie''\<rparr>"

definition example_config :: config where
  "example_config = default_config ''https://example.org'' ''example.org''"

definition example_register_options :: jsval where
  "example_register_options =
     JObject
       [(''challenge'', JStr ''AQID''),
        (''user'', JObject [(''id'', JStr ''BAU''), (''name'', JStr ''alice'')]),
        (''excludeCredentials'', JArray [JObject [(''id'', JStr ''BgcI'')]]),
        (''authenticatorSelection'', JObject [(''authenticatorAttachment'', JNull)])]"

definition example_signin_options :: jsval where
  "example_signin_options =
     JObject
       [(''challenge'', JStr ''AQID''),
        (''allowCredentials'', JArray [JObject [(''id'', JStr ''AQID'')]])]"

definition example_attestation :: "attestation_response credential" where
  "example_attestation =
     \<lparr>cred_id = JStr ''cred1'',
      cred_rawId = NumberArray [1, 2, 3],
      cred_type = JStr ''public-key'',
      cred_extensions = JObject [],
      cred_response =
        \<lparr>att_attestationObject = NumberArray [4, 5],
         att_clientDataJSON = NumberArray [6, 7]\<rparr>\<rparr>"

definition example_assertion :: "assertion_response credential" where
  "example_assertion =
     \<lparr>cred_id = JStr ''cred1'',
      cred_rawId = NumberArray [1, 2, 3],
      cred_type = JStr ''public-key'',
      cred_extensions = JObject [],
      cred_response =
        \<lparr>asr_authenticatorData = NumberArray [4, 5],
         asr_clientDataJSON = NumberArray [6, 7],
         asr_signature = NumberArray [8, 9]\<rparr>\<rparr>"

text \<open>
  A server that answers both begin calls with status 200, the options above and the
  session \<open>s-123\<close>, and every other call with the given response.
\<close>

definition example_fetch :: "response \<Rightarrow> request \<Rightarrow> js_error + response" where
  "example_fetch complete req =
     (if req_url req = ''https://api.passwordless.dev/register/begin''
      then Inr \<lparr>resp_status = 200,
                resp_json = Inr (JObject [(''data'', example_register_options),
                                          (''sessionId'', JStr ''s-123'')])\<rparr>
      else if req_url req = ''https://api.passwordless.dev/signin/begin''
      then Inr \<lparr>resp_status = 200,
                resp_json = Inr (JObject [(''data'', example_signin_options),
                                          (''sessionId'', JStr ''s-123'')])\<rparr>
      else Inr complete)"

definition example_env ::
  "jsval \<Rightarrow> js_error + attestation_response credential option \<Rightarrow> response \<Rightarrow> env" where
  "example_env pkc created complete =
     \<lparr>PublicKeyCredential = pkc,
      ToNumber = (\<lambda>v. 0),
      fetch = example_fetch complete,
      credentials_create = (\<lambda>arg. created),
      credentials_get = (\<lambda>arg. Inr (Some example_assertion)),
      expires_text = (\<lambda>days. ''Tue, 02 Nov 2027 00:00:00 GMT''),
      percent_encode = (\<lambda>s. s),
      percent_decode = (\<lambda>s. Inl (URIError ''URI malformed''))\<rparr>"

definition bad_request :: response where
  "bad_request =
     \<lparr>resp_status = 400, resp_json = Inr (JObject [(''title'', JStr ''Bad Request'')])\<rparr>"

definition ok_response :: response where
  "ok_response =
     \<lparr>resp_status = 200, resp_json = Inr (JObject [(''data'', JStr ''verify-token'')])\<rparr>"

definition empty_world :: world where
  "empty_world = \<lparr>cookies = [], trace = []\<rparr>"

definition example_signin_data :: jsval where
  "example_signin_data =
     JObject
       [(''id'', JStr ''cred1''),
        (''rawId'', JStr ''AQID''),
        (''type'', JStr ''public-key''),
        (''extensions'', JObject []),
        (''response'', JObject
           [(''authenticatorData'', JStr ''BAU''),
            (''clientDataJson'', JStr ''Bgc''),
            (''signature'', JStr ''CAk'')])]"

definition example_adapted_options :: jsval where
  "example_adapted_options =
     JObject
       [(''challenge'', JArrayBuffer [1, 2, 3]),
        (''user'', JObject [(''id'', JArrayBuffer [4, 5]), (''name'', JStr ''alice'')]),
        (''excludeCredentials'', JArray [JObject [(''id'', JArrayBuffer [6, 7, 8])]]),
        (''authenticatorSelection'', JObject [(''authenticatorAttachment'', JUndefined)])]"

section \<open>Properties of the codec\<close>

lemma index_of_nth:
  "distinct xs \<Longrightarrow> n < length xs \<Longrightarrow> index_of xs (xs ! n) = Some n"
proof (induction xs arbitrary: n)
  case Nil
  then show ?case by simp
next
  case (Cons x xs)
  show ?case
  proof (cases n)
    case 0
    then show ?thesis by simp
  next
    case (Suc m)
    with Cons.prems have "m < length xs" "xs ! m \<noteq> x" "distinct xs"
      by auto
    with Cons.IH [of m] Suc show ?thesis by auto
  qed
qed

lemma index_of_Some:
  "index_of xs c = Some n \<Longrightarrow> n < length xs \<and> xs ! n = c"
  by (induction xs arbitrary: n) (auto split: if_splits)

lemma length_base64_alphabet: "length base64_alphabet = 64"
  by (simp add: base64_alphabet_def)

lemma distinct_base64_alphabet: "distinct base64_alphabet"
  by (simp add: base64_alphabet_def)

lemma sextet_of_sextet_char:
  "n < 64 \<Longrightarrow> sextet_of_char (sextet_char n) = Some n"
  by (simp add: sextet_of_char_def sextet_char_def index_of_nth
      distinct_base64_alphabet length_base64_alphabet)

lemma sextet_of_char_Some:
  "sextet_of_char c = Some n \<Longrightarrow> n < 64 \<and> sextet_char n = c"
  using index_of_Some [of base64_alphabet c n]
  by (simp add: sextet_of_char_def sextet_char_def length_base64_alphabet)

lemma sextet_char_in_alphabet: "n < 64 \<Longrightarrow> sextet_char n \<in> set base64_alphabet"
  by (simp add: sextet_char_def length_base64_alphabet)

lemma alphabet_no_special:
  "CHR ''='' \<notin> set base64_alphabet" "CHR ''-'' \<notin> set base64_alphabet"
  "CHR ''_'' \<notin> set base64_alphabet"
  by (simp_all add: base64_alphabet_def)

lemma alphabet_no_whitespace:
  "c \<in> set base64_alphabet \<Longrightarrow> \<not> ascii_whitespace c"
  by (auto simp add: base64_alphabet_def ascii_whitespace_def)

lemma div_bounds:
  "b < 256 \<Longrightarrow> b div 16 < (16::nat)" "c < 256 \<Longrightarrow> c div 64 < (4::nat)"
  by arith+

lemma bytes_of_sextets_of:
  "\<forall>b \<in> set bs. b < 256 \<Longrightarrow> bytes_of (sextets_of bs) = bs"
proof (induction bs rule: sextets_of.induct)
  case 1
  then show ?case by simp
next
  case (2 a)
  then show ?case by simp
next
  case (3 a b)
  then have "b div 16 < 16" by (simp add: div_bounds)
  with 3 show ?case by simp
next
  case (4 a b c bs)
  then have "b div 16 < 16" "c div 64 < 4" by (simp_all add: div_bounds)
  with 4 show ?case by simp
qed

lemma sextet_bounds:
  "(a::nat) < 256 \<Longrightarrow> a div 4 < 64"
  "(a::nat) mod 4 * 16 < 64"
  "(b::nat) < 256 \<Longrightarrow> a mod 4 * 16 + b div 16 < 64"
  "(b::nat) mod 16 * 4 < 64"
  "(c::nat) < 256 \<Longrightarrow> b mod 16 * 4 + c div 64 < 64"
  by arith+

lemma sextets_of_bound:
  "\<forall>b \<in> set bs. b < 256 \<Longrightarrow> \<forall>s \<in> set (sextets_of bs). s < 64"
proof (induction bs rule: sextets_of.induct)
  case 1
  show ?case by simp
next
  case (2 a)
  then have "a < 256" by simp
  then show ?case by (simp only: sextets_of.simps list.set ball_simps sextet_bounds simp_thms)
next
  case (3 a b)
  then have "a < 256" "b < 256" by simp_all
  then show ?case by (simp only: sextets_of.simps list.set ball_simps sextet_bounds simp_thms)
next
  case (4 a b c bs)
  then have "a < 256" "b < 256" "c < 256" and rest: "\<forall>b \<in> set bs. b < 256" by simp_all
  have "c mod 64 < 64" by simp
  with \<open>a < 256\<close> \<open>b < 256\<close> \<open>c < 256\<close> "4.IH" [OF rest] show ?case
    by (simp only: sextets_of.simps list.set ball_simps sextet_bounds simp_thms set_append ball_Un)
qed

lemma zero_tail_sextets_of: "zero_tail (sextets_of bs)"
  by (induction bs rule: sextets_of.induct) simp_all

lemma zero_tail_length: "zero_tail ss \<Longrightarrow> length ss mod 4 \<noteq> 1"
  by (induction ss rule: zero_tail.induct) simp_all

lemma byte_bounds:
  "(s1::nat) < 64 \<Longrightarrow> s2 < 64 \<Longrightarrow> s1 * 4 + s2 div 16 < 256"
  "(s3::nat) < 64 \<Longrightarrow> s2 mod 16 * 16 + s3 div 4 < 256"
  "(s4::nat) < 64 \<Longrightarrow> s3 mod 4 * 64 + s4 < 256"
  by arith+

lemma bytes_of_bound:
  "\<forall>s \<in> set ss. s < 64 \<Longrightarrow> \<forall>b \<in> set (bytes_of ss). b < 256"
  by (induction ss rule: bytes_of.induct) (simp_all add: byte_bounds)

lemma div16_less: "(s2::nat) < 64 \<Longrightarrow> s2 div 16 < 4"
  by (simp add: div_less_iff_less_mult)
lemma div4_less: "(s3::nat) < 64 \<Longrightarrow> s3 div 4 < 16"
  by (simp add: div_less_iff_less_mult)
lemma regroup:
  "(s2::nat) < 64 \<Longrightarrow> (s1 * 4 + s2 div 16) div 4 = s1"
  "(s2::nat) < 64 \<Longrightarrow> (s1 * 4 + s2 div 16) mod 4 = s2 div 16"
  "(s3::nat) < 64 \<Longrightarrow> (s2 mod 16 * 16 + s3 div 4) div 16 = s2 mod 16"
  "(s3::nat) < 64 \<Longrightarrow> (s2 mod 16 * 16 + s3 div 4) mod 16 = s3 div 4"
  "(s4::nat) < 64 \<Longrightarrow> (s3 mod 4 * 64 + s4) div 64 = s3 mod 4"
  "(s4::nat) < 64 \<Longrightarrow> (s3 mod 4 * 64 + s4) mod 64 = s4"
  by (simp_all only: div_mult_self3 mod_mult_self3 div16_less div4_less div_less mod_less
      add_0_right)
lemma zero_low_bits:
  "(s2::nat) mod 16 = 0 \<Longrightarrow> s2 div 16 * 16 = s2"
  "(s3::nat) mod 4 = 0 \<Longrightarrow> s3 div 4 * 4 = s3"
  using div_mult_mod_eq [of s2 16] div_mult_mod_eq [of s3 4] by simp_all

lemma sextets_of_bytes_of:
  "zero_tail ss \<Longrightarrow> \<forall>s \<in> set ss. s < 64 \<Longrightarrow> sextets_of (bytes_of ss) = ss"
proof (induction ss rule: bytes_of.induct)
  case 1
  show ?case by simp
next
  case (2 s1)
  then show ?case by simp
next
  case (3 s1 s2)
  then have "s1 < 64" "s2 < 64" "s2 mod 16 = 0" by simp_all
  then show ?case
    by (simp only: bytes_of.simps sextets_of.simps regroup zero_low_bits)
next
  case (4 s1 s2 s3)
  then have "s1 < 64" "s2 < 64" "s3 < 64" "s3 mod 4 = 0" by simp_all
  then show ?case
    by (simp only: bytes_of.simps sextets_of.simps regroup zero_low_bits
        div_mult_mod_eq)
next
  case (5 s1 s2 s3 s4 ss)
  then have "s1 < 64" "s2 < 64" "s3 < 64" "s4 < 64"
    and rest: "zero_tail ss" "\<forall>s \<in> set ss. s < 64" by simp_all
  with "5.IH" show ?case
    by (simp only: bytes_of.simps sextets_of.simps regroup
        div_mult_mod_eq append_Cons append_Nil)
qed

lemma strip_padding_of:
  "strip_trailing_eq (xs @ padding_of n) = strip_trailing_eq xs"
  by (simp add: padding_of_def strip_trailing_eq_def)

lemma strip_trailing_eq_id:
  "CHR ''='' \<notin> set xs \<Longrightarrow> strip_trailing_eq xs = xs"
proof -
  assume "CHR ''='' \<notin> set xs"
  then have "dropWhile (\<lambda>c. c = CHR ''='') (rev xs) = rev xs"
    by (cases "rev xs") auto
  then show ?thesis by (simp add: strip_trailing_eq_def)
qed

lemma sextets_of_string_map:
  "\<forall>s \<in> set ss. s < 64 \<Longrightarrow> sextets_of_string (map sextet_char ss) = Some ss"
  by (induction ss) (simp_all add: sextet_of_sextet_char)

lemma sextets_of_string_Some:
  "sextets_of_string s = Some ss \<Longrightarrow> s = map sextet_char ss \<and> (\<forall>x \<in> set ss. x < 64)"
proof (induction s arbitrary: ss)
  case Nil
  then show ?case by simp
next
  case (Cons c cs)
  then obtain v vs where v: "sextet_of_char c = Some v"
    and vs: "sextets_of_string cs = Some vs" and ss: "ss = v # vs"
    by (auto split: option.splits)
  from sextet_of_char_Some [OF v] Cons.IH [OF vs] ss show ?case by simp
qed

lemma set_map_sextet_char:
  "\<forall>s \<in> set ss. s < 64 \<Longrightarrow> set (map sextet_char ss) \<subseteq> set base64_alphabet"
  by (auto simp add: sextet_char_in_alphabet)

lemma from_url_to_url:
  "set s \<subseteq> set base64_alphabet \<Longrightarrow>
   replace_all CHR ''_'' CHR ''/'' (replace_all CHR ''-'' CHR ''+''
     (replace_all CHR ''/'' CHR ''_'' (replace_all CHR ''+'' CHR ''-'' s))) = s"
  using alphabet_no_special
  by (induction s) (auto simp add: replace_all_def)

lemma to_url_from_url:
  "CHR ''+'' \<notin> set t \<Longrightarrow> CHR ''/'' \<notin> set t \<Longrightarrow>
   replace_all CHR ''/'' CHR ''_'' (replace_all CHR ''+'' CHR ''-''
     (replace_all CHR ''_'' CHR ''/'' (replace_all CHR ''-'' CHR ''+'' t))) = t"
  by (induction t) (auto simp add: replace_all_def)

lemma to_url_no_eq:
  "set s \<subseteq> set base64_alphabet \<Longrightarrow>
   CHR ''='' \<notin> set (replace_all CHR ''/'' CHR ''_'' (replace_all CHR ''+'' CHR ''-'' s))"
  using alphabet_no_special(1)
  by (induction s) (auto simp add: replace_all_def)

lemma to_url_append_padding:
  "replace_all CHR ''/'' CHR ''_'' (replace_all CHR ''+'' CHR ''-'' (s @ padding_of n)) =
   replace_all CHR ''/'' CHR ''_'' (replace_all CHR ''+'' CHR ''-'' s) @ padding_of n"
  by (simp add: replace_all_def padding_of_def)

lemma atob_sextets:
  assumes "\<forall>s \<in> set ss. s < 64" and "length ss mod 4 \<noteq> 1"
  shows "atob (map sextet_char ss) = Inr (map char_of (bytes_of ss))"
proof -
  let ?d = "map sextet_char ss"
  have sub: "set ?d \<subseteq> set base64_alphabet"
    using assms(1) by (rule set_map_sextet_char)
  then have "\<forall>c \<in> set ?d. \<not> ascii_whitespace c"
    using alphabet_no_whitespace by blast
  then have f: "filter (\<lambda>c. \<not> ascii_whitespace c) ?d = ?d"
    by (simp only: filter_True)
  have "CHR ''='' \<notin> set ?d"
    using sub alphabet_no_special(1) by blast
  then have "?d \<noteq> [] \<Longrightarrow> last ?d \<noteq> CHR ''=''"
    using last_in_set [of ?d] by metis
  then have r: "remove_padding ?d = ?d"
    by (auto simp add: remove_padding_def)
  show ?thesis
    unfolding atob_def f r Let_def
    using assms by (simp add: sextets_of_string_map)
qed

lemma byte_of_char_of:
  "n < 256 \<Longrightarrow> unat (of_nat (of_char (char_of n) :: nat) :: byte) = n"
  by (simp add: unat_of_nat)

lemma bytes_of_chars:
  "\<forall>n \<in> set ns. n < 256 \<Longrightarrow>
   map unat (map (\<lambda>c. of_nat (of_char c) :: byte) (map char_of ns)) = ns"
  by (induction ns) (simp_all add: unat_of_nat)

lemma chars_of_bytes:
  "map of_char (map (\<lambda>w. char_of (unat w)) (bs :: byte list)) = map unat bs"
proof -
  have "unat w mod 256 = unat w" for w :: byte
    using unsigned_less [of w, where 'a = nat] by simp
  then show ?thesis by simp
qed

lemma unat_bytes_bound: "\<forall>n \<in> set (map unat (bs :: byte list)). n < 256"
  using unsigned_less [where 'a = nat and 'b = 8] by auto

lemma byte_of_nat_mod: "(of_nat (n mod 256) :: byte) = of_nat n"
  by (simp add: word_unat_eq_iff unat_of_nat)

lemma encode_Uint8Array:
  "coerceToBase64Url tonum (JUint8Array bs) =
   Inr (replace_all CHR ''/'' CHR ''_'' (replace_all CHR ''+'' CHR ''-''
          (map sextet_char (sextets_of (map unat bs)))))"
proof -
  let ?body = "map sextet_char (sextets_of (map unat bs))"
  have "set ?body \<subseteq> set base64_alphabet"
    using unat_bytes_bound [of bs] sextets_of_bound set_map_sextet_char by blast
  then have "strip_trailing_eq (replace_all CHR ''/'' CHR ''_'' (replace_all CHR ''+'' CHR ''-'' ?body))
    = replace_all CHR ''/'' CHR ''_'' (replace_all CHR ''+'' CHR ''-'' ?body)"
    by (intro strip_trailing_eq_id to_url_no_eq)
  then show ?thesis
    by (simp add: coerceToBase64Url_def btoa_def chars_of_bytes to_url_append_padding
        strip_padding_of del: map_map)
qed

lemma encode_ArrayBuffer:
  "coerceToBase64Url tonum (JArrayBuffer bs) = coerceToBase64Url tonum (JUint8Array bs)"
  by (simp add: coerceToBase64Url_def)

lemma decode_url_text:
  assumes "\<forall>s \<in> set ss. s < 64" and "length ss mod 4 \<noteq> 1"
  shows "coerceToArrayBuffer tonum
           (JStr (replace_all CHR ''/'' CHR ''_'' (replace_all CHR ''+'' CHR ''-''
                    (map sextet_char ss)))) =
         Inr (JArrayBuffer (map of_nat (bytes_of ss)))"
proof -
  have "set (map sextet_char ss) \<subseteq> set base64_alphabet"
    using assms(1) by (rule set_map_sextet_char)
  then have unurl: "replace_all CHR ''_'' CHR ''/'' (replace_all CHR ''-'' CHR ''+''
     (replace_all CHR ''/'' CHR ''_'' (replace_all CHR ''+'' CHR ''-'' (map sextet_char ss))))
     = map sextet_char ss"
    by (rule from_url_to_url)
  have "map (\<lambda>c. of_nat (of_char c) :: byte) (map char_of (bytes_of ss)) =
        map of_nat (bytes_of ss)"
    by (simp add: byte_of_nat_mod)
  then show ?thesis
    unfolding coerceToArrayBuffer_def
    by (simp add: unurl atob_sextets [OF assms] del: map_map)
qed

lemma url_sextets_of_string_Some:
  "url_sextets_of_string t = Some ss \<Longrightarrow>
   sextets_of_string (replace_all CHR ''_'' CHR ''/'' (replace_all CHR ''-'' CHR ''+'' t)) = Some ss
   \<and> CHR ''+'' \<notin> set t \<and> CHR ''/'' \<notin> set t"
proof (induction t arbitrary: ss)
  case Nil
  then show ?case by (simp add: replace_all_def)
next
  case (Cons c cs)
  then obtain v vs where v: "url_sextet_of_char c = Some v"
    and vs: "url_sextets_of_string cs = Some vs" and ss: "ss = v # vs"
    by (auto split: option.splits)
  from v have "c \<noteq> CHR ''+''" "c \<noteq> CHR ''/''"
    "sextet_of_char (if c = CHR ''-'' then CHR ''+'' else if c = CHR ''_'' then CHR ''/'' else c)
      = Some v"
    by (auto simp add: url_sextet_of_char_def split: if_splits)
  with Cons.IH [OF vs] ss show ?case
    by (auto simp add: replace_all_def)
qed

lemma url_sextets_of_string_to_url:
  "\<forall>s \<in> set ss. s < 64 \<Longrightarrow>
   url_sextets_of_string
     (replace_all CHR ''/'' CHR ''_'' (replace_all CHR ''+'' CHR ''-'' (map sextet_char ss)))
   = Some ss"
proof (induction ss)
  case Nil
  then show ?case by (simp add: replace_all_def)
next
  case (Cons v vs)
  then have v: "v < 64" by simp
  let ?c = "sextet_char v"
  have mem: "?c \<in> set base64_alphabet"
    using v by (rule sextet_char_in_alphabet)
  then have ne: "?c \<noteq> CHR ''-''" "?c \<noteq> CHR ''_''"
    using alphabet_no_special by auto
  have "url_sextet_of_char (if (if ?c = CHR ''+'' then CHR ''-'' else ?c) = CHR ''/''
          then CHR ''_'' else (if ?c = CHR ''+'' then CHR ''-'' else ?c)) = Some v"
    using ne sextet_of_sextet_char [OF v] by (auto simp add: url_sextet_of_char_def)
  with Cons show ?case
    by (simp add: replace_all_def)
qed

lemma decode_valid:
  assumes "url_sextets_of_string t = Some ss" and "zero_tail ss"
  shows "coerceToArrayBuffer tonum (JStr t) = Inr (JArrayBuffer (map of_nat (bytes_of ss)))"
    and "coerceToBase64Url tonum (JArrayBuffer (map of_nat (bytes_of ss))) = Inr t"
proof -
  let ?s = "replace_all CHR ''_'' CHR ''/'' (replace_all CHR ''-'' CHR ''+'' t)"
  from url_sextets_of_string_Some [OF assms(1)]
  have s: "sextets_of_string ?s = Some ss" and t: "CHR ''+'' \<notin> set t" "CHR ''/'' \<notin> set t"
    by simp_all
  from sextets_of_string_Some [OF s]
  have body: "?s = map sextet_char ss" and bound: "\<forall>x \<in> set ss. x < 64"
    by simp_all
  have t_eq: "t = replace_all CHR ''/'' CHR ''_'' (replace_all CHR ''+'' CHR ''-''
      (map sextet_char ss))"
    using to_url_from_url [OF t] body by simp
  from decode_url_text [OF bound zero_tail_length [OF assms(2)], of tonum]
  show "coerceToArrayBuffer tonum (JStr t) = Inr (JArrayBuffer (map of_nat (bytes_of ss)))"
    using t_eq by simp
  have "map unat (map of_nat (bytes_of ss) :: byte list) = bytes_of ss"
    using bytes_of_bound [OF bound] by (simp add: unat_of_nat map_idI)
  then show "coerceToBase64Url tonum (JArrayBuffer (map of_nat (bytes_of ss))) = Inr t"
    using t_eq sextets_of_bytes_of [OF assms(2) bound]
    by (simp add: encode_ArrayBuffer encode_Uint8Array del: map_map)
qed

lemma decode_encode:
  "coerceToArrayBuffer tonum
     (JStr (replace_all CHR ''/'' CHR ''_'' (replace_all CHR ''+'' CHR ''-''
        (map sextet_char (sextets_of (map unat bs)))))) = Inr (JArrayBuffer bs)"
proof -
  have bound: "\<forall>n \<in> set (map unat bs). n < 256"
    by (rule unat_bytes_bound)
  have "map of_nat (map unat bs) = bs"
    by (simp add: map_idI)
  then show ?thesis
    using decode_url_text [OF sextets_of_bound [OF bound]
        zero_tail_length [OF zero_tail_sextets_of], of tonum]
      bytes_of_sextets_of [OF bound]
    by (simp del: map_map)
qed

text \<open>
  The characterisation of the valid texts is exact: they are the texts that
  \<open>coerceToBase64Url\<close> produces from byte sequences.
\<close>

lemma valid_base64url_iff:
  "valid_base64url t \<longleftrightarrow> (\<exists>bs. coerceToBase64Url tonum (JArrayBuffer bs) = Inr t)"
proof
  assume "valid_base64url t"
  then obtain ss where "url_sextets_of_string t = Some ss" "zero_tail ss"
    by (auto simp add: valid_base64url_def split: option.splits)
  from decode_valid(2) [OF this]
  show "\<exists>bs. coerceToBase64Url tonum (JArrayBuffer bs) = Inr t" by blast
next
  assume "\<exists>bs. coerceToBase64Url tonum (JArrayBuffer bs) = Inr t"
  then obtain bs where "coerceToBase64Url tonum (JArrayBuffer bs) = Inr t" by blast
  then have t: "t = replace_all CHR ''/'' CHR ''_'' (replace_all CHR ''+'' CHR ''-''
      (map sextet_char (sextets_of (map unat bs))))"
    by (simp add: encode_ArrayBuffer encode_Uint8Array)
  have "url_sextets_of_string t = Some (sextets_of (map unat bs))"
    unfolding t
    by (rule url_sextets_of_string_to_url) (rule sextets_of_bound [OF unat_bytes_bound])
  then show "valid_base64url t"
    by (simp add: valid_base64url_def zero_tail_sextets_of)
qed

lemma strip_trailing_eq_last:
  "strip_trailing_eq s = [] \<or> last (strip_trailing_eq s) \<noteq> CHR ''=''"
proof (cases "dropWhile (\<lambda>c. c = CHR ''='') (rev s)")
  case Nil
  then show ?thesis by (simp add: strip_trailing_eq_def)
next
  case (Cons x xs)
  with hd_dropWhile [of "\<lambda>c. c = CHR ''=''" "rev s"] have "x \<noteq> CHR ''=''" by simp
  with Cons show ?thesis by (simp add: strip_trailing_eq_def)
qed

lemma set_strip_trailing_eq: "set (strip_trailing_eq s) \<subseteq> set s"
  using set_dropWhileD [of _ "\<lambda>c. c = CHR ''=''" "rev s"]
  by (auto simp add: strip_trailing_eq_def)

text \<open>
  A text that is accepted by \<open>atob\<close> but is not the encoding of any byte sequence
  (its unused low bits are not zero) decodes, and is re-encoded to the canonical text.
\<close>

lemma noncanonical_example:
  "coerceToArrayBuffer (\<lambda>v. 0) (JStr ''QR'') = Inr (JArrayBuffer [65]) \<and>
   coerceToBase64Url (\<lambda>v. 0) (JArrayBuffer [65]) = Inr ''QQ''"
  by code_simp

text \<open>
  Claim C1 (codec round trip). For every byte sequence \<open>b\<close>, given as a
  \<open>Uint8Array\<close> or as an \<open>ArrayBuffer\<close>, \<open>coerceToBase64Url\<close> returns a text \<open>t\<close>
  and \<open>coerceToArrayBuffer\<close> of that text is the buffer holding \<open>b\<close>. For every valid
  padding-stripped URL-safe text \<open>t\<close>, \<open>coerceToArrayBuffer\<close> returns a buffer and
  \<open>coerceToBase64Url\<close> of that buffer is \<open>t\<close> again. By \<open>valid_base64url_iff\<close> the
  valid texts are exactly the texts produced by the encoder.
\<close>

theorem codec_round_trip:
  "(\<exists>t. coerceToBase64Url tonum (JUint8Array b) = Inr t \<and>
        coerceToBase64Url tonum (JArrayBuffer b) = Inr t \<and>
        coerceToArrayBuffer tonum (JStr t) = Inr (JArrayBuffer b)) \<and>
   (valid_base64url t \<longrightarrow>
      (\<exists>b'. coerceToArrayBuffer tonum (JStr t) = Inr (JArrayBuffer b') \<and>
            coerceToBase64Url tonum (JArrayBuffer b') = Inr t))"
proof
  show "\<exists>t. coerceToBase64Url tonum (JUint8Array b) = Inr t \<and>
        coerceToBase64Url tonum (JArrayBuffer b) = Inr t \<and>
        coerceToArrayBuffer tonum (JStr t) = Inr (JArrayBuffer b)"
    by (simp add: encode_ArrayBuffer encode_Uint8Array decode_encode)
next
  show "valid_base64url t \<longrightarrow>
      (\<exists>b'. coerceToArrayBuffer tonum (JStr t) = Inr (JArrayBuffer b') \<and>
            coerceToBase64Url tonum (JArrayBuffer b') = Inr t)"
  proof
    assume "valid_base64url t"
    then obtain ss where "url_sextets_of_string t = Some ss" "zero_tail ss"
      by (auto simp add: valid_base64url_def split: option.splits)
    from decode_valid [OF this, of tonum]
    show "\<exists>b'. coerceToArrayBuffer tonum (JStr t) = Inr (JArrayBuffer b') \<and>
            coerceToBase64Url tonum (JArrayBuffer b') = Inr t"
      by blast
  qed
qed

theorem codec_round_trip_witness:
  "valid_base64url ''-_8'' \<and>
   coerceToArrayBuffer (\<lambda>v. 0) (JStr ''-_8'') = Inr (JArrayBuffer [251, 255]) \<and>
   coerceToBase64Url (\<lambda>v. 0) (JArrayBuffer [251, 255]) = Inr ''-_8''"
proof -
  have v: "valid_base64url ''-_8''"
    by code_simp
  have d: "coerceToArrayBuffer (\<lambda>v. 0) (JStr ''-_8'') = Inr (JArrayBuffer [251, 255])"
    by code_simp
  from codec_round_trip [of "\<lambda>v. 0" "[251, 255]" "''-_8''"] v d show ?thesis
    by auto
qed

text \<open>
  Claim C9 (URL-safe output). Whatever input \<open>coerceToBase64Url\<close> accepts, the text
  it returns contains neither \<open>+\<close> nor \<open>/\<close> and does not end in \<open>=\<close>.
\<close>

theorem encode_url_safe:
  assumes "coerceToBase64Url tonum thing = Inr t"
  shows "CHR ''+'' \<notin> set t \<and> CHR ''/'' \<notin> set t \<and> (t = [] \<or> last t \<noteq> CHR ''='')"
proof -
  from assms obtain s where
    t: "t = strip_trailing_eq (replace_all CHR ''/'' CHR ''_'' (replace_all CHR ''+'' CHR ''-'' s))"
    by (auto simp add: coerceToBase64Url_def Let_def split: jsval.splits)
  have "CHR ''+'' \<notin> set (replace_all CHR ''/'' CHR ''_'' (replace_all CHR ''+'' CHR ''-'' s))"
    "CHR ''/'' \<notin> set (replace_all CHR ''/'' CHR ''_'' (replace_all CHR ''+'' CHR ''-'' s))"
    by (auto simp add: replace_all_def)
  with set_strip_trailing_eq strip_trailing_eq_last show ?thesis
    unfolding t by blast
qed

theorem encode_url_safe_witness:
  "coerceToBase64Url (\<lambda>v. 0) (JArray [JNum 251, JNum 255]) = Inr ''-_8'' \<and>
   CHR ''+'' \<notin> set ''-_8'' \<and> CHR ''/'' \<notin> set ''-_8'' \<and> last ''-_8'' \<noteq> CHR ''=''"
proof -
  have e: "coerceToBase64Url (\<lambda>v. 0) (JArray [JNum 251, JNum 255]) = Inr ''-_8''"
    by code_simp
  from encode_url_safe [OF e] e show ?thesis by simp
qed

section \<open>Properties of objects and of the ceremony steps\<close>

lemmas io_defs = io_bind_def io_catch_def io_lift_def io_return_def io_throw_def emit_def
  http_fetch_def

lemma bindE_Inr: "bindE m f = Inr y \<longleftrightarrow> (\<exists>x. m = Inr x \<and> f x = Inr y)"
  by (cases m) (simp_all add: bindE_def)

lemma bindE_simps [simp]: "bindE (Inr x) f = f x" "bindE (Inl e) f = Inl e"
  by (simp_all add: bindE_def)

lemma map_of_put_prop:
  "map_of (put_prop k v kvs) k' = (if k' = k then Some v else map_of kvs k')"
  by (induction kvs) auto

lemma get_prop_set_prop:
  "set_prop obj k v = Inr obj' \<Longrightarrow>
   get_prop obj' k' = (if k' = k then Inr v else get_prop obj k')"
  by (cases obj) (auto simp add: map_of_put_prop)

lemma put_prop_names: "k \<in> set (map fst (put_prop k v kvs))"
proof (induction kvs)
  case Nil
  show ?case by simp
next
  case (Cons p kvs)
  then show ?case by (cases p; cases "k = fst p") simp_all
qed

lemma has_own_property_set_prop:
  "set_prop obj k v = Inr obj' \<Longrightarrow> has_own_property obj' k"
  by (cases obj) (auto simp add: put_prop_names simp del: set_map)

lemma get_prop_defined:
  "get_prop r k = Inr v \<Longrightarrow> \<exists>v'. get_prop r k' = Inr v'"
  by (cases r) simp_all

lemma adapt_register_options_attachment:
  assumes "adapt_register_options tonum options = Inr options'"
    and "get_prop options ''authenticatorSelection'' = Inr sel"
    and "get_prop sel ''authenticatorAttachment'' = Inr JNull"
  shows "\<exists>sel'. get_prop options' ''authenticatorSelection'' = Inr sel' \<and>
               has_own_property sel' ''authenticatorAttachment'' \<and>
               get_prop sel' ''authenticatorAttachment'' = Inr JUndefined"
proof -
  from assms(1) obtain buf options1 user user' options2 excl excl' options3 sel3 att where
    s1: "set_prop options ''challenge'' buf = Inr options1"
    and s2: "set_prop options1 ''user'' user' = Inr options2"
    and s3: "set_prop options2 ''excludeCredentials'' excl' = Inr options3"
    and g: "get_prop options3 ''authenticatorSelection'' = Inr sel3"
    and a: "get_prop sel3 ''authenticatorAttachment'' = Inr att"
    and r: "(if att = JNull
             then bindE (set_prop sel3 ''authenticatorAttachment'' JUndefined)
                    (\<lambda>sel'. set_prop options3 ''authenticatorSelection'' sel')
             else Inr options3) = Inr options'"
    unfolding adapt_register_options_def bindE_Inr by blast
  have "get_prop options3 ''authenticatorSelection'' = get_prop options ''authenticatorSelection''"
    by (simp add: get_prop_set_prop [OF s3] get_prop_set_prop [OF s2] get_prop_set_prop [OF s1])
  with g assms(2) have "sel3 = sel" by simp
  with a assms(3) have "att = JNull" by simp
  with r obtain sel' where
    t1: "set_prop sel3 ''authenticatorAttachment'' JUndefined = Inr sel'"
    and t2: "set_prop options3 ''authenticatorSelection'' sel' = Inr options'"
    by (auto simp add: bindE_Inr)
  show ?thesis
    by (simp add: get_prop_set_prop [OF t2] get_prop_set_prop [OF t1]
        has_own_property_set_prop [OF t1])
qed

lemma register_options_world:
  "register_options env cfg token w = (Inr (options, session), w1) \<Longrightarrow>
   w1 = w\<lparr>trace := trace w @ [Fetch (register_begin_request cfg token)]\<rparr>"
  by (auto simp add: register_options_def registerBegin_def io_defs
      split: sum.splits prod.splits)

lemma events_since_trace:
  "trace w' = trace w @ evs \<Longrightarrow> events_since w w' = evs"
  by (simp add: events_since_def)

lemma setHint_result [simp]:
  "fst (setHint env cfg hint w) = Inr ()" "trace (snd (setHint env cfg hint w)) = trace w"
  by (simp_all add: setHint_def setCookie_def io_return_def)

lemma setHint_case:
  "(case setHint env cfg hint w of (Inl e, w') \<Rightarrow> f e w' | (Inr x, w') \<Rightarrow> g x w') =
   g () (snd (setHint env cfg hint w))"
  by (simp add: setHint_def setCookie_def io_return_def)

lemma io_bind_simps:
  "io_bind (io_return x) f w = f x w"
  "io_bind (io_throw e) f w = (Inl e, w)"
  "io_bind (io_lift (Inr x)) f w = f x w"
  "io_bind (io_lift (Inl e)) f w = (Inl e, w)"
  "io_bind (emit ev) g w = g () (w\<lparr>trace := trace w @ [ev]\<rparr>)"
  "io_bind (setHint env cfg hint) g w = g () (snd (setHint env cfg hint w))"
  "io_bind (if c then m1 else m2) f w = (if c then io_bind m1 f w else io_bind m2 f w)"
  "io_bind (io_bind m f) h w = io_bind m (\<lambda>x. io_bind (f x) h) w"
  by (auto simp add: io_defs setHint_def setCookie_def split: prod.splits sum.splits)

lemma io_plain_simps:
  "io_return x w = (Inr x, w)"
  "io_throw e w = (Inl e, w)"
  "io_lift r w = (r, w)"
  "emit ev w = (Inr (), w\<lparr>trace := trace w @ [ev]\<rparr>)"
  by (simp_all add: io_defs)

lemmas io_simps = io_bind_simps io_plain_simps http_fetch_def io_catch_def

lemma registerComplete_trace:
  "trace (snd (registerComplete env cfg newCredential session w)) = trace w \<or>
   (\<exists>req. trace (snd (registerComplete env cfg newCredential session w)) = trace w @ [Fetch req])"
proof (cases newCredential)
  case None
  then show ?thesis by (simp add: registerComplete_def io_simps)
next
  case (Some c)
  show ?thesis
  proof (cases "register_complete_data (ToNumber env) c")
    case (Inl e)
    then show ?thesis by (simp add: Some registerComplete_def io_simps)
  next
    case (Inr data)
    let ?req = "register_complete_request cfg data session"
    have "trace (snd (registerComplete env cfg newCredential session w)) =
            trace w @ [Fetch ?req]"
      by (cases "fetch env ?req") (simp_all add: Some registerComplete_def io_simps Inr)
    then show ?thesis by blast
  qed
qed

lemma register_events:
  assumes sup: "checkSupport env = Inr ()"
    and opts: "register_options env cfg token w = (Inr (options, session), w1)"
  shows "\<exists>evs. events_since w (snd (register env cfg token w)) =
           Fetch (register_begin_request cfg token)
             # CredentialsCreate (JObject [(''publicKey'', options)]) # evs \<and>
           (\<forall>a. CredentialsCreate a \<notin> set evs)"
proof -
  let ?arg = "JObject [(''publicKey'', options)]"
  let ?pre = "[Fetch (register_begin_request cfg token), CredentialsCreate ?arg]"
  have w1: "trace w1 = trace w @ [Fetch (register_begin_request cfg token)]"
    using register_options_world [OF opts] by simp
  let ?w2 = "w1\<lparr>trace := trace w1 @ [CredentialsCreate ?arg]\<rparr>"
  show ?thesis
  proof (cases "credentials_create env ?arg")
    case (Inl e)
    have "snd (register env cfg token w) =
          ?w2\<lparr>trace := trace ?w2 @ [ConsoleWarn register_failed_create (Some e)]\<rparr>"
      by (simp add: register_def sup opts io_defs Inl)
    then have "trace (snd (register env cfg token w)) =
          trace w @ ?pre @ [ConsoleWarn register_failed_create (Some e)]"
      by (simp add: w1)
    from events_since_trace [OF this] show ?thesis by simp
  next
    case (Inr newCredential)
    obtain res w3 where rc: "registerComplete env cfg newCredential session ?w2 = (res, w3)"
      by force
    from registerComplete_trace [of env cfg newCredential session ?w2]
    obtain evs0 where t3: "trace w3 = trace w @ ?pre @ evs0"
      and no: "\<forall>a. CredentialsCreate a \<notin> set evs0"
      unfolding rc by (auto simp add: w1)
    show ?thesis
    proof (cases res)
      case e: (Inl e)
      have "snd (register env cfg token w) =
            w3\<lparr>trace := trace w3 @ [ConsoleWarn ''Failed during register/complete'' (Some e)]\<rparr>"
        using rc by (simp add: register_def sup opts io_defs Inr e)
      then have "trace (snd (register env cfg token w)) =
            trace w @ ?pre @ evs0
              @ [ConsoleWarn ''Failed during register/complete'' (Some e)]"
        by (simp add: t3)
      from events_since_trace [OF this] no show ?thesis by simp
    next
      case x: (Inr x)
      have "snd (register env cfg token w) = snd (setHint env cfg ''hint-passwordless'' w3)"
        using rc by (simp add: register_def sup opts io_defs Inr x setHint_case)
      then have "trace (snd (register env cfg token w)) = trace w @ ?pre @ evs0"
        by (simp add: t3)
      from events_since_trace [OF this] no show ?thesis by simp
    qed
  qed
qed

lemma register_options_events:
  "\<exists>evs. trace (snd (register_options env cfg token w)) = trace w @ evs \<and>
         (\<forall>a. CredentialsCreate a \<notin> set evs)"
proof (cases "fetch env (register_begin_request cfg token)")
  case (Inl e)
  then have "trace (snd (register_options env cfg token w)) =
      trace w @ [Fetch (register_begin_request cfg token),
                 ConsoleError ''Failed during register/begin'']"
    by (simp add: register_options_def registerBegin_def io_defs)
  then show ?thesis by simp
next
  case (Inr resp)
  show ?thesis
  proof (cases "bindE (resp_json resp) destructure_begin")
    case e: (Inl e)
    then have "trace (snd (register_options env cfg token w)) =
      trace w @ [Fetch (register_begin_request cfg token),
                 ConsoleError ''Failed during register/begin'']"
      by (cases "resp_json resp")
        (simp_all add: register_options_def registerBegin_def io_defs Inr)
    then show ?thesis by simp
  next
    case x: (Inr x)
    then have "trace (snd (register_options env cfg token w)) =
      trace w @ [Fetch (register_begin_request cfg token)]"
      by (cases "resp_json resp"; cases x;
          cases "adapt_register_options (ToNumber env) (fst x)")
        (simp_all add: register_options_def registerBegin_def io_defs Inr)
    then show ?thesis by simp
  qed
qed

lemma register_create_called:
  assumes "CredentialsCreate arg \<in> set (events_since w (snd (register env cfg token w)))"
  shows "checkSupport env = Inr () \<and>
         (\<exists>options session w1.
            register_options env cfg token w = (Inr (options, session), w1) \<and>
            arg = JObject [(''publicKey'', options)])"
proof (cases "checkSupport env")
  case (Inl e)
  then have "register env cfg token w = (Inl e, w)"
    by (simp add: register_def io_defs)
  with assms show ?thesis by (simp add: events_since_def)
next
  case sup: (Inr u)
  obtain res w1 where ro: "register_options env cfg token w = (res, w1)"
    by force
  show ?thesis
  proof (cases res)
    case (Inl e)
    then have "register env cfg token w = (Inl e, w1)"
      by (simp add: register_def io_defs sup ro)
    moreover from register_options_events [of env cfg token w] ro
    have "\<forall>a. CredentialsCreate a \<notin> set (events_since w w1)"
      by (auto simp add: events_since_def)
    ultimately show ?thesis using assms by simp
  next
    case (Inr x)
    obtain options session where x: "x = (options, session)" by (cases x)
    from register_events [OF _ ro [unfolded Inr x]] sup assms
    show ?thesis using ro Inr x by auto
  qed
qed

section \<open>Properties of the hint store\<close>

lemma split_acc_piece:
  "s \<notin> set p \<Longrightarrow> split_acc (s # sep) acc (p @ rest) = split_acc (s # sep) (acc @ p) rest"
  by (induction p arbitrary: acc) auto

lemma split_acc_sep:
  "split_acc (s # sep) acc ((s # sep) @ rest) = acc # split_acc (s # sep) [] rest"
  by simp

lemma split_acc_join:
  "list_all (\<lambda>e. s \<notin> set e) (e # es) \<Longrightarrow>
   split_acc (s # sep) acc (join_with (s # sep) (e # es)) = (acc @ e) # es"
proof (induction es arbitrary: acc e)
  case Nil
  then show ?case
    using split_acc_piece [of s e sep acc "[]"] by simp
next
  case (Cons e' es)
  then have e: "s \<notin> set e" and rest: "list_all (\<lambda>e. s \<notin> set e) (e' # es)"
    by simp_all
  have "split_acc (s # sep) acc (join_with (s # sep) (e # e' # es)) =
        split_acc (s # sep) (acc @ e) ((s # sep) @ join_with (s # sep) (e' # es))"
    using split_acc_piece [OF e, of sep acc] by simp
  also have "\<dots> = (acc @ e) # split_acc (s # sep) [] (join_with (s # sep) (e' # es))"
    by (rule split_acc_sep)
  also have "\<dots> = (acc @ e) # e' # es"
    using Cons.IH [OF rest, of "[]"] by simp
  finally show ?case .
qed

lemma js_split_join:
  "list_all (\<lambda>e. s \<notin> set e) es \<Longrightarrow> es \<noteq> [] \<Longrightarrow>
   js_split (s # sep) (join_with (s # sep) es) = es"
  using split_acc_join [of s _ _ sep "[]"]
  by (cases es) (simp_all add: js_split_def)

lemma js_split_name_value:
  "CHR ''='' \<notin> set n \<Longrightarrow>
   js_split ''='' (n @ CHR ''='' # v) = n # js_split ''='' v"
  using split_acc_piece [of "CHR ''=''" n "[]" "[]" "CHR ''='' # v"]
  by (simp add: js_split_def)

lemma getCookie_step_other:
  "wf_cookie c \<Longrightarrow> fst c \<noteq> name \<Longrightarrow> getCookie_step env name r (cookie_string c) = Inr r"
  by (simp add: getCookie_step_def cookie_string_def wf_cookie_def js_split_name_value)

lemma getCookie_step_one:
  "CHR ''='' \<notin> set name \<Longrightarrow> name \<noteq> [] \<Longrightarrow>
   getCookie_step env name r (cookie_string (name, ''1'')) = Inr ''1''"
  by (simp add: getCookie_step_def cookie_string_def js_split_name_value decodeURIComponent_def
      js_split_def [of _ "''1''"])

lemma reduceE_others:
  "list_all wf_cookie jar \<Longrightarrow> name \<notin> fst ` set jar \<Longrightarrow>
   reduceE (getCookie_step env name) r (map cookie_string jar) = Inr r"
  by (induction jar) (auto simp add: getCookie_step_other)

lemma reduceE_put_cookie:
  assumes "CHR ''='' \<notin> set name" and "name \<noteq> []"
  shows "wf_jar jar \<Longrightarrow>
   reduceE (getCookie_step env name) r (map cookie_string (put_cookie name ''1'' jar)) = Inr ''1''"
proof (induction jar arbitrary: r)
  case Nil
  then show ?case by (simp add: getCookie_step_one [OF assms])
next
  case (Cons c jar)
  obtain n v where c: "c = (n, v)" by (cases c)
  from Cons.prems have wf: "wf_cookie c" "list_all wf_cookie jar" "fst c \<notin> fst ` set jar"
    and jar: "wf_jar jar"
    by (auto simp add: wf_jar_def)
  show ?case
  proof (cases "name = n")
    case True
    with wf c have "name \<notin> fst ` set jar" by simp
    from reduceE_others [OF wf(2) this]
    have "reduceE (getCookie_step env name) ''1'' (map cookie_string jar) = Inr ''1''" .
    moreover have "getCookie_step env name r (cookie_string (name, ''1'')) = Inr ''1''"
      by (rule getCookie_step_one [OF assms])
    ultimately have
      "reduceE (getCookie_step env name) r (map cookie_string ((name, ''1'') # jar)) = Inr ''1''"
      by simp
    with True c show ?thesis by simp
  next
    case False
    with wf(1) c have "getCookie_step env name r (cookie_string c) = Inr r"
      by (simp add: getCookie_step_other)
    with False c Cons.IH [OF jar] show ?thesis by simp
  qed
qed

lemma wf_cookie_no_semicolon: "wf_cookie c \<Longrightarrow> CHR '';'' \<notin> set (cookie_string c)"
  by (auto simp add: wf_cookie_def cookie_string_def)

lemma put_cookie_wf:
  "wf_cookie (n, v) \<Longrightarrow> list_all wf_cookie jar \<Longrightarrow> list_all wf_cookie (put_cookie n v jar)"
  by (induction jar) auto

lemma put_cookie_nonempty: "put_cookie n v jar \<noteq> []"
  by (cases jar) (auto split: if_splits)

lemma getCookie_after_put:
  assumes "wf_jar jar" and "wf_cookie (name, ''1'')"
    and "cookies w = put_cookie name ''1'' jar"
  shows "getCookie env name w = Inr ''1''"
proof -
  let ?es = "map cookie_string (put_cookie name ''1'' jar)"
  have "list_all wf_cookie (put_cookie name ''1'' jar)"
    using assms(1,2) by (simp add: put_cookie_wf wf_jar_def)
  then have "list_all (\<lambda>e. CHR '';'' \<notin> set e) ?es"
    by (simp add: list_all_iff wf_cookie_no_semicolon)
  moreover have "?es \<noteq> []"
    by (simp add: put_cookie_nonempty)
  ultimately have "js_split ''; '' (join_with ''; '' ?es) = ?es"
    by (rule js_split_join)
  moreover from assms(2) have "CHR ''='' \<notin> set name" "name \<noteq> []"
    by (simp_all add: wf_cookie_def)
  ultimately show ?thesis
    using reduceE_put_cookie [OF _ _ assms(1), of name env "[]"]
    by (simp add: getCookie_def document_cookie_get_def assms(3))
qed

lemma setHint_cookie:
  "useHints cfg = JStr ''cookie'' \<Longrightarrow>
   cookies (snd (setHint env cfg ''hint-passwordless'' w)) =
     put_cookie ''hint-passwordless'' ''1'' (cookies w)"
  by (simp add: setHint_def setCookie_def document_cookie_set_def encodeURIComponent_def
      uri_unreserved_def trim_wsp_def wsp_def)

text \<open>Writing the hint keeps the cookie store well formed.\<close>

lemma put_cookie_names: "set (map fst (put_cookie n v jar)) = insert n (set (map fst jar))"
proof (induction jar)
  case Nil
  show ?case by simp
next
  case (Cons c jar)
  then show ?case by (cases c; cases "n = fst c") auto
qed

lemma put_cookie_distinct:
  "distinct (map fst jar) \<Longrightarrow> distinct (map fst (put_cookie n v jar))"
proof (induction jar)
  case Nil
  show ?case by simp
next
  case (Cons c jar)
  then have "fst c \<notin> set (map fst jar)" and "distinct (map fst (put_cookie n v jar))"
    by simp_all
  then show ?case
    using put_cookie_names [of n v jar] Cons.prems by (cases c) auto
qed

lemma wf_jar_setHint:
  assumes "useHints cfg = JStr ''cookie''" and "wf_jar (cookies w)"
  shows "wf_jar (cookies (snd (setHint env cfg ''hint-passwordless'' w)))"
proof -
  have "wf_cookie (''hint-passwordless'', ''1'')"
    by (simp add: wf_cookie_def)
  with assms(2) show ?thesis
    by (simp add: setHint_cookie [OF assms(1)] wf_jar_def put_cookie_wf put_cookie_distinct)
qed

lemma hasPasswordlessHint_after_setHint:
  assumes "useHints cfg = JStr ''cookie''" and "wf_jar (cookies w)"
  shows "hasPasswordlessHint env cfg (snd (setHint env cfg ''hint-passwordless'' w)) =
         Inr (JBool True)"
proof -
  have "wf_cookie (''hint-passwordless'', ''1'')"
    by (simp add: wf_cookie_def)
  from getCookie_after_put [OF assms(2) this setHint_cookie [OF assms(1)]]
  show ?thesis by (simp add: hasPasswordlessHint_def assms(1))
qed

section \<open>Properties of sign-in\<close>

lemma signin_assertion_result:
  "signin_assertion env cfg username w = (Inr (credential, sessionId), w1) \<Longrightarrow>
   \<exists>options. w1 = w\<lparr>trace := trace w @
      [Fetch (signin_begin_request cfg username),
       CredentialsGet (JObject [(''publicKey'', options)])]\<rparr> \<and>
     credentials_get env (JObject [(''publicKey'', options)]) = Inr credential"
  by (auto simp add: signin_assertion_def signinBegin_def io_defs
      split: sum.splits prod.splits)

lemma encode_1_2_3: "coerceToBase64Url tonum (JUint8Array [1, 2, 3]) = Inr ''AQID''"
  by code_simp

lemma signin_complete_data_rawId:
  "signin_complete_data tonum c = Inr data \<Longrightarrow>
   coerceToBase64Url tonum (JUint8Array (new_Uint8Array (cred_rawId c))) = Inr t \<Longrightarrow>
   get_prop data ''rawId'' = Inr (JStr t)"
  by (auto simp add: signin_complete_data_def Let_def bindE_def split: sum.splits)

lemma signin_complete_data_total:
  "\<exists>data. signin_complete_data tonum c = Inr data"
  by (simp add: signin_complete_data_def Let_def encode_Uint8Array)

lemma Fetch_in_requests_of: "Fetch r \<in> set evs \<longleftrightarrow> r \<in> set (requests_of evs)"
  by (induction evs rule: requests_of.induct) auto

lemma signin_assertion_requests:
  "requests_of (events_since w (snd (signin_assertion env cfg username w))) =
     [signin_begin_request cfg username]"
proof -
  let ?f = "Fetch (signin_begin_request cfg username)"
  have "\<exists>evs. trace (snd (signin_assertion env cfg username w)) = trace w @ ?f # evs \<and>
      requests_of evs = []"
  proof (cases "fetch env (signin_begin_request cfg username)")
    case (Inl e)
    then have "trace (snd (signin_assertion env cfg username w)) =
        trace w @ [?f, ConsoleWarn ''Failed during signin/begin'' (Some e)]"
      by (simp add: signin_assertion_def signinBegin_def io_defs)
    then show ?thesis by simp
  next
    case (Inr resp)
    show ?thesis
    proof (cases "bindE (resp_json resp) destructure_begin")
      case e: (Inl e)
      then have "trace (snd (signin_assertion env cfg username w)) =
          trace w @ [?f, ConsoleWarn ''Failed during signin/begin'' (Some e)]"
        by (cases "resp_json resp")
          (simp_all add: signin_assertion_def signinBegin_def io_defs Inr)
      then show ?thesis by simp
    next
      case x: (Inr x)
      obtain data sessionId where x': "x = (data, sessionId)" by (cases x)
      show ?thesis
      proof (cases "adapt_signin_options (ToNumber env) data")
        case a: (Inl e)
        with x x' have "trace (snd (signin_assertion env cfg username w)) = trace w @ [?f]"
          by (cases "resp_json resp")
            (simp_all add: signin_assertion_def signinBegin_def io_defs Inr)
        then show ?thesis by simp
      next
        case a: (Inr options)
        let ?g = "CredentialsGet (JObject [(''publicKey'', options)])"
        show ?thesis
        proof (cases "credentials_get env (JObject [(''publicKey'', options)])")
          case g: (Inl e)
          with x x' a have "trace (snd (signin_assertion env cfg username w)) =
              trace w @ [?f, ?g, ConsoleWarn ''Failed during credentials.get in browser.'' (Some e)]"
            by (cases "resp_json resp")
              (simp_all add: signin_assertion_def signinBegin_def io_defs Inr)
          then show ?thesis by simp
        next
          case g: (Inr c)
          with x x' a have "trace (snd (signin_assertion env cfg username w)) =
              trace w @ [?f, ?g]"
            by (cases "resp_json resp")
              (simp_all add: signin_assertion_def signinBegin_def io_defs Inr)
          then show ?thesis by simp
        qed
      qed
    qed
  qed
  then show ?thesis by (auto simp add: events_since_def)
qed

lemma signin_assertion_trace:
  "\<exists>evs. trace (snd (signin_assertion env cfg username w)) = trace w @ evs \<and>
         requests_of evs = [signin_begin_request cfg username]"
proof -
  obtain evs where "trace (snd (signin_assertion env cfg username w)) = trace w @ evs"
    using signin_assertion_result [of env cfg username w]
    by (cases "signin_assertion env cfg username w")
      (auto simp add: signin_assertion_def signinBegin_def io_defs
        split: sum.splits prod.splits)
  with signin_assertion_requests [of w env cfg username] show ?thesis
    by (auto simp add: events_since_def)
qed

text \<open>The complete phase of a sign-in whose platform invocation gave the credential \<open>c\<close>.\<close>

lemma signin_complete_run:
  assumes sup: "checkSupport env = Inr ()"
    and reach: "signin_assertion env cfg username w = (Inr (Some c, sessionId), w1)"
    and data: "signin_complete_data (ToNumber env) c = Inr data"
  shows "signin env cfg username w =
    (let w2 = w1\<lparr>trace := trace w1 @ [Fetch (signin_complete_request cfg data sessionId)]\<rparr>
     in case fetch env (signin_complete_request cfg data sessionId) of
          Inl e \<Rightarrow>
            (Inl e, w2\<lparr>trace := trace w2 @
               [ConsoleWarn ''Failed during signin/complete'' (Some e)]\<rparr>)
        | Inr resp \<Rightarrow>
            (let w3 = (if resp_status resp = 200
                       then snd (setHint env cfg ''hint-passwordless'' w2) else w2)
             in case bindE (resp_json resp) (\<lambda>body. get_prop body ''data'') of
                  Inl e \<Rightarrow>
                    (Inl e, w3\<lparr>trace := trace w3 @
                       [ConsoleWarn ''Failed during signin/complete'' (Some e)]\<rparr>)
                | Inr d \<Rightarrow> (Inr d, w3)))"
proof (cases "fetch env (signin_complete_request cfg data sessionId)")
  case (Inl e)
  then show ?thesis
    by (simp add: signin_def signinComplete_def sup reach data io_defs)
next
  case (Inr resp)
  show ?thesis
  proof (cases "resp_json resp")
    case j: (Inl e)
    then show ?thesis
      by (simp add: signin_def signinComplete_def sup reach data Inr io_defs setHint_case)
  next
    case j: (Inr body)
    then show ?thesis
      by (cases "get_prop body ''data''")
        (simp_all add: signin_def signinComplete_def sup reach data Inr io_defs setHint_case)
  qed
qed

lemma signin_complete_called:
  assumes call: "Fetch req \<in> set (events_since w (snd (signin env cfg username w)))"
    and url: "req_url req = apiUrl cfg @ ''signin/complete''"
  shows "checkSupport env = Inr () \<and>
         (\<exists>c sessionId w1 data.
            signin_assertion env cfg username w = (Inr (Some c, sessionId), w1) \<and>
            signin_complete_data (ToNumber env) c = Inr data \<and>
            req = signin_complete_request cfg data sessionId)"
proof (cases "checkSupport env")
  case (Inl e)
  then have "signin env cfg username w = (Inl e, w)"
    by (simp add: signin_def io_defs)
  with call show ?thesis by (simp add: events_since_def)
next
  case sup: (Inr u)
  obtain res w1 where sa: "signin_assertion env cfg username w = (res, w1)"
    by force
  from signin_assertion_trace [of env cfg username w] sa obtain evs where
    w1: "trace w1 = trace w @ evs" and evs: "requests_of evs = [signin_begin_request cfg username]"
    by auto
  have nb: "req \<noteq> signin_begin_request cfg username"
    using url by (auto simp add: signin_begin_request_def)
  have no: "Fetch req \<notin> set evs"
    using evs nb by (simp add: Fetch_in_requests_of)
  show ?thesis
  proof (cases res)
    case (Inl e)
    then have "signin env cfg username w = (Inl e, w1)"
      by (simp add: signin_def io_defs sup sa)
    with call no show ?thesis by (simp add: events_since_def w1)
  next
    case (Inr x)
    obtain credential sessionId where x: "x = (credential, sessionId)" by (cases x)
    show ?thesis
    proof (cases credential)
      case None
      have "trace (snd (signin env cfg username w)) = trace w1 @
        [ConsoleWarn ''Failed during signin/complete''
           (Some (TypeError ''Cannot read properties of null''))]"
        by (simp add: signin_def signinComplete_def io_defs sup sa Inr x None)
      with call no show ?thesis by (simp add: events_since_def w1)
    next
      case (Some c)
      from signin_complete_data_total obtain data where
        data: "signin_complete_data (ToNumber env) c = Inr data" by blast
      let ?req = "signin_complete_request cfg data sessionId"
      from signin_complete_run [OF _ sa [unfolded Inr x Some] data] sup
      have "\<exists>evs'. trace (snd (signin env cfg username w)) = trace w1 @ Fetch ?req # evs' \<and>
          requests_of evs' = []"
        by (auto simp add: Let_def split: sum.splits)
      then obtain evs' where "events_since w (snd (signin env cfg username w)) =
          evs @ Fetch ?req # evs'" and "requests_of evs' = []"
        by (auto simp add: events_since_def w1)
      with call no have "req = ?req"
        by (auto simp add: Fetch_in_requests_of)
      with sup sa Inr x Some data show ?thesis by simp
    qed
  qed
qed

section \<open>The claims\<close>

text \<open>
  Claim C6 (capability gate). \<open>checkSupport\<close> throws its error exactly when the global
  \<open>PublicKeyCredential\<close> is absent (\<open>undefined\<close>) or not of function type, and returns
  without any effect otherwise. It is the first step of \<open>register\<close> and of \<open>signin\<close>:
  when it throws, both reject with that error and nothing else has happened (no
  request, no log entry, no cookie).
\<close>

theorem checkSupport_gate:
  "(checkSupport env =
      Inl (Error ''WebAuthn and PublicKeyCredentials are not supported on this browser/device'')
    \<longleftrightarrow> PublicKeyCredential env = JUndefined \<or> typeof (PublicKeyCredential env) \<noteq> ''function'') \<and>
   (checkSupport env = Inr ()
    \<longleftrightarrow> \<not> (PublicKeyCredential env = JUndefined \<or> typeof (PublicKeyCredential env) \<noteq> ''function'')) \<and>
   (checkSupport env \<noteq> Inr () \<longrightarrow>
      register env cfg token w =
        (Inl (Error ''WebAuthn and PublicKeyCredentials are not supported on this browser/device''),
         w) \<and>
      signin env cfg username w =
        (Inl (Error ''WebAuthn and PublicKeyCredentials are not supported on this browser/device''),
         w))"
  by (simp add: checkSupport_def isBrowserSupported_def register_def signin_def
      io_bind_def io_lift_def)

theorem checkSupport_gate_witness:
  "checkSupport (example_env JUndefined (Inr None) ok_response) \<noteq> Inr () \<and>
   checkSupport (example_env (JObject []) (Inr None) ok_response) \<noteq> Inr () \<and>
   checkSupport (example_env JFunction (Inr None) ok_response) = Inr () \<and>
   register (example_env JUndefined (Inr None) ok_response) example_config (JStr ''token'')
     empty_world =
     (Inl (Error ''WebAuthn and PublicKeyCredentials are not supported on this browser/device''),
      empty_world) \<and>
   signin (example_env (JObject []) (Inr None) ok_response) example_config (JStr ''alice'')
     empty_world =
     (Inl (Error ''WebAuthn and PublicKeyCredentials are not supported on this browser/device''),
      empty_world)"
proof -
  have a: "checkSupport (example_env JUndefined (Inr None) ok_response) \<noteq> Inr ()"
    and b: "checkSupport (example_env (JObject []) (Inr None) ok_response) \<noteq> Inr ()"
    and c: "checkSupport (example_env JFunction (Inr None) ok_response) = Inr ()"
    by (simp_all add: checkSupport_def isBrowserSupported_def example_env_def)
  from checkSupport_gate [of "example_env JUndefined (Inr None) ok_response"
      example_config "JStr ''token''" empty_world "JStr ''alice''"]
    checkSupport_gate [of "example_env (JObject []) (Inr None) ok_response"
      example_config "JStr ''token''" empty_world "JStr ''alice''"]
    a b c
  show ?thesis by blast
qed

text \<open>
  Claim C10 (hint strategy). When the configured strategy is anything other than
  \<open>cookie\<close>, \<open>hasPasswordlessHint\<close> returns \<open>undefined\<close> (not \<open>false\<close>), whatever the
  cookies are, and \<open>setHint\<close> changes nothing.
\<close>

theorem hint_strategy_not_cookie:
  "useHints cfg \<noteq> JStr ''cookie'' \<Longrightarrow>
   hasPasswordlessHint env cfg w = Inr JUndefined \<and> setHint env cfg hint w = (Inr (), w)"
  by (simp add: hasPasswordlessHint_def setHint_def io_return_def)

theorem hint_strategy_not_cookie_witness:
  "useHints (example_config\<lparr>useHints := JStr ''none''\<rparr>) \<noteq> JStr ''cookie'' \<and>
   hasPasswordlessHint (example_env JFunction (Inr None) ok_response)
     (example_config\<lparr>useHints := JStr ''none''\<rparr>)
     \<lparr>cookies = [(''hint-passwordless'', ''1'')], trace = []\<rparr> = Inr JUndefined \<and>
   setHint (example_env JFunction (Inr None) ok_response)
     (example_config\<lparr>useHints := JStr ''none''\<rparr>) ''hint-passwordless'' empty_world =
     (Inr (), empty_world)"
proof -
  have h: "useHints (example_config\<lparr>useHints := JStr ''none''\<rparr>) \<noteq> JStr ''cookie''"
    by simp
  from hint_strategy_not_cookie [OF h] h show ?thesis by blast
qed

text \<open>
  Claim C4 (platform rejection during registration). When a registration invokes
  \<^verbatim>\<open>navigator.credentials.create\<close> and the invocation rejects with \<open>e\<close>, \<open>register\<close>
  rejects with \<open>e\<close>, the only request of the ceremony is the one to \<open>register/begin\<close>,
  and so none goes to \<open>register/complete\<close>.
\<close>

theorem register_platform_rejection:
  assumes call: "CredentialsCreate arg \<in> set (events_since w (snd (register env cfg token w)))"
    and rej: "credentials_create env arg = Inl e"
  shows "fst (register env cfg token w) = Inl e \<and>
         requests_of (events_since w (snd (register env cfg token w))) =
           [register_begin_request cfg token] \<and>
         (\<forall>r \<in> set (requests_of (events_since w (snd (register env cfg token w)))).
            req_url r \<noteq> apiUrl cfg @ ''register/complete'')"
proof -
  from register_create_called [OF call] obtain options session w1 where
    sup: "checkSupport env = Inr ()"
    and opts: "register_options env cfg token w = (Inr (options, session), w1)"
    and arg: "arg = JObject [(''publicKey'', options)]"
    by blast
  have w1: "trace w1 = trace w @ [Fetch (register_begin_request cfg token)]"
    using register_options_world [OF opts] by simp
  have run: "register env cfg token w =
      (Inl e, w1\<lparr>trace := trace w1 @
         [CredentialsCreate arg, ConsoleWarn register_failed_create (Some e)]\<rparr>)"
    using rej by (simp add: register_def sup opts arg io_defs)
  have "req_url (register_begin_request cfg token) \<noteq> apiUrl cfg @ ''register/complete''"
    by (simp add: register_begin_request_def)
  then show ?thesis
    by (simp add: run events_since_def w1)
qed

theorem register_platform_rejection_witness:
  "CredentialsCreate (JObject [(''publicKey'', example_adapted_options)])
     \<in> set (events_since empty_world (snd (register
           (example_env JFunction (Inl (DOMException ''NotAllowedError'' ''cancelled''))
              ok_response)
           example_config (JStr ''token'') empty_world))) \<and>
   credentials_create
     (example_env JFunction (Inl (DOMException ''NotAllowedError'' ''cancelled'')) ok_response)
     (JObject [(''publicKey'', example_adapted_options)]) =
     Inl (DOMException ''NotAllowedError'' ''cancelled'') \<and>
   fst (register
     (example_env JFunction (Inl (DOMException ''NotAllowedError'' ''cancelled'')) ok_response)
     example_config (JStr ''token'') empty_world) =
     Inl (DOMException ''NotAllowedError'' ''cancelled'') \<and>
   map req_url (requests_of (events_since empty_world (snd (register
     (example_env JFunction (Inl (DOMException ''NotAllowedError'' ''cancelled'')) ok_response)
     example_config (JStr ''token'') empty_world)))) =
     [''https://api.passwordless.dev/register/begin'']"
proof -
  let ?env = "example_env JFunction (Inl (DOMException ''NotAllowedError'' ''cancelled''))
     ok_response"
  have call: "CredentialsCreate (JObject [(''publicKey'', example_adapted_options)])
     \<in> set (events_since empty_world
          (snd (register ?env example_config (JStr ''token'') empty_world)))"
    by code_simp
  have rej: "credentials_create ?env (JObject [(''publicKey'', example_adapted_options)]) =
      Inl (DOMException ''NotAllowedError'' ''cancelled'')"
    by (simp add: example_env_def)
  have url: "req_url (register_begin_request example_config (JStr ''token'')) =
      ''https://api.passwordless.dev/register/begin''"
    by code_simp
  from register_platform_rejection [OF call rej] call rej url show ?thesis
    by simp
qed

text \<open>
  Claim C5 (null attachment), as stated: when the begin response carries
  \<open>authenticatorSelection.authenticatorAttachment\<close> equal to \<open>null\<close>, the options passed
  to \<^verbatim>\<open>navigator.credentials.create\<close> omit that field entirely. Line 50 assigns
  \<open>undefined\<close> to the property and does not delete it: in the example ceremony the
  selection object that reaches the platform still holds the property name.
\<close>

theorem register_null_attachment_key_stays:
  "fetch (example_env JFunction (Inr (Some example_attestation)) ok_response)
     (register_begin_request example_config (JStr ''token'')) =
     Inr \<lparr>resp_status = 200,
          resp_json = Inr (JObject [(''data'', example_register_options),
                                    (''sessionId'', JStr ''s-123'')])\<rparr> \<and>
   get_prop example_register_options ''authenticatorSelection'' =
     Inr (JObject [(''authenticatorAttachment'', JNull)]) \<and>
   CredentialsCreate (JObject [(''publicKey'', example_adapted_options)])
     \<in> set (events_since empty_world (snd (register
           (example_env JFunction (Inr (Some example_attestation)) ok_response)
           example_config (JStr ''token'') empty_world))) \<and>
   get_prop example_adapted_options ''authenticatorSelection'' =
     Inr (JObject [(''authenticatorAttachment'', JUndefined)]) \<and>
   has_own_property (JObject [(''authenticatorAttachment'', JUndefined)])
     ''authenticatorAttachment''"
  by code_simp

text \<open>
  Claim C5, amended. When the begin response carries
  \<open>authenticatorSelection.authenticatorAttachment\<close> equal to \<open>null\<close>, every invocation of
  \<^verbatim>\<open>navigator.credentials.create\<close> in the ceremony receives options in which that
  property is still present, with the value \<open>undefined\<close> in place of \<open>null\<close>: the
  platform, which reads dictionary members with a property get, finds the member not
  present, where \<open>null\<close> would have been a present member.
\<close>

theorem register_null_attachment_undefined:
  assumes resp: "fetch env (register_begin_request cfg token) = Inr resp"
    and json: "resp_json resp = Inr r"
    and data: "get_prop r ''data'' = Inr options"
    and sel: "get_prop options ''authenticatorSelection'' = Inr sel"
    and null: "get_prop sel ''authenticatorAttachment'' = Inr JNull"
    and call: "CredentialsCreate arg \<in> set (events_since w (snd (register env cfg token w)))"
  shows "\<exists>options' sel'.
           arg = JObject [(''publicKey'', options')] \<and>
           get_prop options' ''authenticatorSelection'' = Inr sel' \<and>
           has_own_property sel' ''authenticatorAttachment'' \<and>
           get_prop sel' ''authenticatorAttachment'' = Inr JUndefined \<and>
           dictionary_member sel' ''authenticatorAttachment'' = Inr None"
proof -
  from register_create_called [OF call] obtain options' session w1 where
    opts: "register_options env cfg token w = (Inr (options', session), w1)"
    and arg: "arg = JObject [(''publicKey'', options')]"
    by blast
  from get_prop_defined [OF data] obtain session' where
    session: "get_prop r ''sessionId'' = Inr session'" by blast
  from opts have "adapt_register_options (ToNumber env) options = Inr options'"
    by (cases "adapt_register_options (ToNumber env) options")
      (simp_all add: register_options_def registerBegin_def destructure_begin_def
        resp json data session io_defs)
  from adapt_register_options_attachment [OF this sel null] obtain sel' where
    "get_prop options' ''authenticatorSelection'' = Inr sel'"
    "has_own_property sel' ''authenticatorAttachment''"
    "get_prop sel' ''authenticatorAttachment'' = Inr JUndefined" by blast
  with arg show ?thesis by (simp add: dictionary_member_def)
qed

theorem register_null_attachment_undefined_witness:
  "fetch (example_env JFunction (Inr (Some example_attestation)) ok_response)
     (register_begin_request example_config (JStr ''token'')) =
     Inr \<lparr>resp_status = 200,
          resp_json = Inr (JObject [(''data'', example_register_options),
                                    (''sessionId'', JStr ''s-123'')])\<rparr> \<and>
   get_prop example_register_options ''authenticatorSelection'' =
     Inr (JObject [(''authenticatorAttachment'', JNull)]) \<and>
   CredentialsCreate (JObject [(''publicKey'', example_adapted_options)])
     \<in> set (events_since empty_world (snd (register
           (example_env JFunction (Inr (Some example_attestation)) ok_response)
           example_config (JStr ''token'') empty_world))) \<and>
   bindE (get_prop example_adapted_options ''authenticatorSelection'')
     (\<lambda>sel. Inr (has_own_property sel ''authenticatorAttachment'')) = Inr True \<and>
   bindE (get_prop example_adapted_options ''authenticatorSelection'')
     (\<lambda>sel. get_prop sel ''authenticatorAttachment'') = Inr JUndefined \<and>
   bindE (get_prop example_adapted_options ''authenticatorSelection'')
     (\<lambda>sel. dictionary_member sel ''authenticatorAttachment'') = Inr None \<and>
   dictionary_member (JObject [(''authenticatorAttachment'', JNull)])
     ''authenticatorAttachment'' = Inr (Some JNull)"
proof -
  let ?env = "example_env JFunction (Inr (Some example_attestation)) ok_response"
  let ?arg = "JObject [(''publicKey'', example_adapted_options)]"
  have resp: "fetch ?env (register_begin_request example_config (JStr ''token'')) =
      Inr \<lparr>resp_status = 200,
           resp_json = Inr (JObject [(''data'', example_register_options),
                                     (''sessionId'', JStr ''s-123'')])\<rparr>"
    by code_simp
  have json: "resp_json \<lparr>resp_status = 200,
           resp_json = Inr (JObject [(''data'', example_register_options),
                                     (''sessionId'', JStr ''s-123'')])\<rparr> =
      Inr (JObject [(''data'', example_register_options), (''sessionId'', JStr ''s-123'')])"
    by simp
  have data: "get_prop (JObject [(''data'', example_register_options),
      (''sessionId'', JStr ''s-123'')]) ''data'' = Inr example_register_options"
    by simp
  have sel: "get_prop example_register_options ''authenticatorSelection'' =
      Inr (JObject [(''authenticatorAttachment'', JNull)])"
    by code_simp
  have null: "get_prop (JObject [(''authenticatorAttachment'', JNull)])
      ''authenticatorAttachment'' = Inr JNull"
    by simp
  have call: "CredentialsCreate ?arg \<in> set (events_since empty_world
      (snd (register ?env example_config (JStr ''token'') empty_world)))"
    by code_simp
  have other: "dictionary_member (JObject [(''authenticatorAttachment'', JNull)])
     ''authenticatorAttachment'' = Inr (Some JNull)"
    by code_simp
  from register_null_attachment_undefined [OF resp json data sel null call]
  have "bindE (get_prop example_adapted_options ''authenticatorSelection'')
       (\<lambda>sel. Inr (has_own_property sel ''authenticatorAttachment'')) = Inr True \<and>
     bindE (get_prop example_adapted_options ''authenticatorSelection'')
       (\<lambda>sel. get_prop sel ''authenticatorAttachment'') = Inr JUndefined \<and>
     bindE (get_prop example_adapted_options ''authenticatorSelection'')
       (\<lambda>sel. dictionary_member sel ''authenticatorAttachment'') = Inr None"
    by auto
  with resp sel call other show ?thesis by simp
qed

text \<open>
  Claim C2 (registration, failure of the complete phase). The claim says that
  \<open>register\<close> resolves and that the hint is not written when \<open>register/complete\<close>
  answers with a status other than success. \<open>registerComplete\<close> writes the hint only
  for status 200, but \<open>register\<close> then calls \<open>setHint\<close> again without looking at the
  status. With a server that answers \<open>register/complete\<close> with status 400 and a JSON
  body, \<open>register\<close> resolves, the cookie is written and \<open>hasPasswordlessHint\<close> is true.
\<close>

theorem register_complete_failure_sets_hint:
  "map (\<lambda>r. (req_url r,
              map_sum id resp_status
                (fetch (example_env JFunction (Inr (Some example_attestation)) bad_request) r)))
     (requests_of (trace (snd
        (register (example_env JFunction (Inr (Some example_attestation)) bad_request)
           example_config (JStr ''token'') empty_world)))) =
     [(''https://api.passwordless.dev/register/begin'', Inr 200),
      (''https://api.passwordless.dev/register/complete'', Inr 400)] \<and>
   fst (register (example_env JFunction (Inr (Some example_attestation)) bad_request)
          example_config (JStr ''token'') empty_world) = Inr () \<and>
   cookies (snd (register (example_env JFunction (Inr (Some example_attestation)) bad_request)
          example_config (JStr ''token'') empty_world)) = [(''hint-passwordless'', ''1'')] \<and>
   hasPasswordlessHint (example_env JFunction (Inr (Some example_attestation)) bad_request)
     example_config
     (snd (register (example_env JFunction (Inr (Some example_attestation)) bad_request)
          example_config (JStr ''token'') empty_world)) = Inr (JBool True)"
  by code_simp

text \<open>
  Claim C3 (sign-in, failure of the complete phase), as stated: \<open>signin\<close> rejects when
  \<open>signin/complete\<close> answers with a status other than success. With a server that
  answers \<open>signin/complete\<close> with status 400 and a JSON body, \<open>signin\<close> resolves, with
  \<open>undefined\<close>.
\<close>

theorem signin_complete_failure_resolves:
  "map (\<lambda>r. (req_url r,
              map_sum id resp_status (fetch (example_env JFunction (Inr None) bad_request) r)))
     (requests_of (trace (snd
        (signin (example_env JFunction (Inr None) bad_request) example_config (JStr ''alice'')
           empty_world)))) =
     [(''https://api.passwordless.dev/signin/begin'', Inr 200),
      (''https://api.passwordless.dev/signin/complete'', Inr 400)] \<and>
   fst (signin (example_env JFunction (Inr None) bad_request) example_config (JStr ''alice'')
         empty_world) = Inr JUndefined"
  by code_simp

text \<open>
  Claim C3, amended. When the request to \<open>signin/complete\<close> is answered with a status
  other than 200, \<open>signin\<close> does not reject on account of the status: it resolves with
  the \<open>data\<close> member of the response body, and it rejects only when reading the body
  as JSON, or reading \<open>data\<close> from it, throws, and then with that error. In both cases
  no hint is written.
\<close>

theorem signin_complete_non_success:
  assumes call: "Fetch req \<in> set (events_since w (snd (signin env cfg username w)))"
    and url: "req_url req = apiUrl cfg @ ''signin/complete''"
    and resp: "fetch env req = Inr resp"
    and status: "resp_status resp \<noteq> 200"
  shows "fst (signin env cfg username w) =
           bindE (resp_json resp) (\<lambda>body. get_prop body ''data'') \<and>
         cookies (snd (signin env cfg username w)) = cookies w"
proof -
  from signin_complete_called [OF call url] obtain c sessionId w1 data where
    sup: "checkSupport env = Inr ()"
    and reach: "signin_assertion env cfg username w = (Inr (Some c, sessionId), w1)"
    and data: "signin_complete_data (ToNumber env) c = Inr data"
    and req: "req = signin_complete_request cfg data sessionId"
    by blast
  from signin_assertion_result [OF reach] have c: "cookies w1 = cookies w"
    by auto
  from signin_complete_run [OF sup reach data] resp status c show ?thesis
    by (cases "bindE (resp_json resp) (\<lambda>body. get_prop body ''data'')")
      (simp_all add: req [symmetric])
qed

theorem signin_complete_non_success_witness:
  "Fetch (signin_complete_request example_config example_signin_data (JStr ''s-123''))
     \<in> set (events_since empty_world (snd (signin
           (example_env JFunction (Inr None) bad_request) example_config (JStr ''alice'')
           empty_world))) \<and>
   req_url (signin_complete_request example_config example_signin_data (JStr ''s-123'')) =
     apiUrl example_config @ ''signin/complete'' \<and>
   fetch (example_env JFunction (Inr None) bad_request)
     (signin_complete_request example_config example_signin_data (JStr ''s-123'')) =
     Inr bad_request \<and>
   resp_status bad_request \<noteq> 200 \<and>
   fst (signin (example_env JFunction (Inr None) bad_request) example_config (JStr ''alice'')
          empty_world) = Inr JUndefined \<and>
   cookies (snd (signin (example_env JFunction (Inr None) bad_request) example_config
          (JStr ''alice'') empty_world)) = []"
proof -
  let ?env = "example_env JFunction (Inr None) bad_request"
  let ?req = "signin_complete_request example_config example_signin_data (JStr ''s-123'')"
  have call: "Fetch ?req \<in> set (events_since empty_world
      (snd (signin ?env example_config (JStr ''alice'') empty_world)))"
    by code_simp
  have url: "req_url ?req = apiUrl example_config @ ''signin/complete''"
    by code_simp
  have resp: "fetch ?env ?req = Inr bad_request"
    by code_simp
  have status: "resp_status bad_request \<noteq> 200"
    by code_simp
  have body: "bindE (resp_json bad_request) (\<lambda>body. get_prop body ''data'') = Inr JUndefined"
    by code_simp
  have empty: "cookies empty_world = []"
    by code_simp
  from signin_complete_non_success [OF call url resp status] call url resp status body empty
  show ?thesis by simp
qed

text \<open>
  Claim C7 (sign-in, success). Take a sign-in under the \<open>cookie\<close> strategy, starting
  from a well-formed cookie store, in which \<^verbatim>\<open>navigator.credentials.get\<close> gives a
  credential whose \<open>rawId\<close> holds the bytes 1, 2, 3, and in which the request to
  \<open>signin/complete\<close> is answered with status 200 and a JSON body with a \<open>data\<close> member.
  Then \<open>signin\<close> resolves with that member, the body of the request has
  \<open>response.rawId\<close> equal to \<open>AQID\<close>, the URL-safe encoding of the bytes 1, 2, 3, and
  afterwards \<open>hasPasswordlessHint\<close> returns \<open>true\<close>.
\<close>

theorem signin_success:
  assumes cookie: "useHints cfg = JStr ''cookie''"
    and jar: "wf_jar (cookies w)"
    and get: "CredentialsGet arg \<in> set (events_since w (snd (signin env cfg username w)))"
    and cred: "credentials_get env arg = Inr (Some c)"
    and rawId: "new_Uint8Array (cred_rawId c) = [1, 2, 3]"
    and call: "Fetch req \<in> set (events_since w (snd (signin env cfg username w)))"
    and url: "req_url req = apiUrl cfg @ ''signin/complete''"
    and resp: "fetch env req = Inr resp"
    and status: "resp_status resp = 200"
    and json: "resp_json resp = Inr body"
    and payload: "get_prop body ''data'' = Inr d"
  shows "fst (signin env cfg username w) = Inr d \<and>
         bindE (get_prop (req_body req) ''response'') (\<lambda>r. get_prop r ''rawId'') =
           Inr (JStr ''AQID'') \<and>
         coerceToBase64Url (ToNumber env) (JUint8Array [1, 2, 3]) = Inr ''AQID'' \<and>
         hasPasswordlessHint env cfg (snd (signin env cfg username w)) = Inr (JBool True)"
proof -
  from signin_complete_called [OF call url] obtain c' sessionId w1 data where
    sup: "checkSupport env = Inr ()"
    and reach: "signin_assertion env cfg username w = (Inr (Some c', sessionId), w1)"
    and data: "signin_complete_data (ToNumber env) c' = Inr data"
    and req: "req = signin_complete_request cfg data sessionId"
    by blast
  from signin_assertion_result [OF reach] obtain options where
    w1: "w1 = w\<lparr>trace := trace w @
      [Fetch (signin_begin_request cfg username),
       CredentialsGet (JObject [(''publicKey'', options)])]\<rparr>"
    and got: "credentials_get env (JObject [(''publicKey'', options)]) = Inr (Some c')"
    by blast
  let ?w2 = "w1\<lparr>trace := trace w1 @ [Fetch req]\<rparr>"
  from signin_complete_run [OF sup reach data] resp status json payload
  have run: "signin env cfg username w =
      (Inr d, snd (setHint env cfg ''hint-passwordless'' ?w2))"
    by (simp add: req [symmetric])
  then have "events_since w (snd (signin env cfg username w)) =
      [Fetch (signin_begin_request cfg username),
       CredentialsGet (JObject [(''publicKey'', options)]), Fetch req]"
    by (simp add: events_since_def w1)
  with get have "arg = JObject [(''publicKey'', options)]" by simp
  with cred got have c: "c' = c" by simp
  have "get_prop data ''rawId'' = Inr (JStr ''AQID'')"
    using signin_complete_data_rawId [OF data] rawId encode_1_2_3 by (simp add: c)
  then have body: "bindE (get_prop (req_body req) ''response'') (\<lambda>r. get_prop r ''rawId'') =
      Inr (JStr ''AQID'')"
    by (simp add: req signin_complete_request_def)
  have "wf_jar (cookies ?w2)"
    using jar by (simp add: w1)
  from hasPasswordlessHint_after_setHint [OF cookie this]
  have "hasPasswordlessHint env cfg (snd (signin env cfg username w)) = Inr (JBool True)"
    by (simp add: run)
  with run body encode_1_2_3 show ?thesis by simp
qed

theorem signin_success_witness:
  "useHints example_config = JStr ''cookie'' \<and>
   wf_jar (cookies empty_world) \<and>
   CredentialsGet (JObject [(''publicKey'', JObject
       [(''challenge'', JArrayBuffer [1, 2, 3]),
        (''allowCredentials'', JArray [JObject [(''id'', JArrayBuffer [1, 2, 3])]])])])
     \<in> set (events_since empty_world (snd (signin
           (example_env JFunction (Inr None) ok_response) example_config (JStr ''alice'')
           empty_world))) \<and>
   new_Uint8Array (cred_rawId example_assertion) = [1, 2, 3] \<and>
   Fetch (signin_complete_request example_config example_signin_data (JStr ''s-123''))
     \<in> set (events_since empty_world (snd (signin
           (example_env JFunction (Inr None) ok_response) example_config (JStr ''alice'')
           empty_world))) \<and>
   fetch (example_env JFunction (Inr None) ok_response)
     (signin_complete_request example_config example_signin_data (JStr ''s-123'')) =
     Inr ok_response \<and>
   resp_status ok_response = 200 \<and>
   fst (signin (example_env JFunction (Inr None) ok_response) example_config (JStr ''alice'')
          empty_world) = Inr (JStr ''verify-token'') \<and>
   bindE (get_prop (req_body
       (signin_complete_request example_config example_signin_data (JStr ''s-123'')))
       ''response'') (\<lambda>r. get_prop r ''rawId'') = Inr (JStr ''AQID'') \<and>
   hasPasswordlessHint (example_env JFunction (Inr None) ok_response) example_config
     (snd (signin (example_env JFunction (Inr None) ok_response) example_config
        (JStr ''alice'') empty_world)) = Inr (JBool True)"
proof -
  let ?env = "example_env JFunction (Inr None) ok_response"
  let ?arg = "JObject [(''publicKey'', JObject
       [(''challenge'', JArrayBuffer [1, 2, 3]),
        (''allowCredentials'', JArray [JObject [(''id'', JArrayBuffer [1, 2, 3])]])])]"
  let ?req = "signin_complete_request example_config example_signin_data (JStr ''s-123'')"
  have cookie: "useHints example_config = JStr ''cookie''"
    by code_simp
  have jar: "wf_jar (cookies empty_world)"
    by code_simp
  have get: "CredentialsGet ?arg \<in> set (events_since empty_world
      (snd (signin ?env example_config (JStr ''alice'') empty_world)))"
    by code_simp
  have cred: "credentials_get ?env ?arg = Inr (Some example_assertion)"
    by (simp add: example_env_def)
  have rawId: "new_Uint8Array (cred_rawId example_assertion) = [1, 2, 3]"
    by code_simp
  have call: "Fetch ?req \<in> set (events_since empty_world
      (snd (signin ?env example_config (JStr ''alice'') empty_world)))"
    by code_simp
  have url: "req_url ?req = apiUrl example_config @ ''signin/complete''"
    by code_simp
  have resp: "fetch ?env ?req = Inr ok_response"
    by code_simp
  have status: "resp_status ok_response = 200"
    by code_simp
  have json: "resp_json ok_response = Inr (JObject [(''data'', JStr ''verify-token'')])"
    by code_simp
  have payload: "get_prop (JObject [(''data'', JStr ''verify-token'')]) ''data'' =
      Inr (JStr ''verify-token'')"
    by simp
  from signin_success [OF cookie jar get cred rawId call url resp status json payload]
    cookie jar get rawId call resp status
  show ?thesis by simp
qed

text \<open>
  Claim C8 (request headers). The claim says that all four requests carry \<open>Accept\<close>,
  the API key and \<open>Content-Type: application/json\<close>. The two requests of a registration
  do; the two requests of a sign-in carry \<open>Accept\<close> and the API key (empty in the
  default configuration) but no \<open>Content-Type\<close> header.
\<close>

theorem signin_requests_lack_content_type:
  "map (\<lambda>r. (req_url r, map (map_of (req_headers r)) [''Accept'', ''ApiKey'', ''Content-Type'']))
     (requests_of (trace (snd
        (signin (example_env JFunction (Inr None) ok_response) example_config (JStr ''alice'')
           empty_world)))) =
     [(''https://api.passwordless.dev/signin/begin'',
       [Some ''application/json'', Some [], None]),
      (''https://api.passwordless.dev/signin/complete'',
       [Some ''application/json'', Some [], None])] \<and>
   map (\<lambda>r. (req_url r, map (map_of (req_headers r)) [''Accept'', ''ApiKey'', ''Content-Type'']))
     (requests_of (trace (snd
        (register (example_env JFunction (Inr (Some example_attestation)) ok_response)
           example_config (JStr ''token'') empty_world)))) =
     [(''https://api.passwordless.dev/register/begin'',
       [Some ''application/json'', Some [], Some ''application/json'']),
      (''https://api.passwordless.dev/register/complete'',
       [Some ''application/json'', Some [], Some ''application/json''])]"
  by code_simp

end
